theory Spec2Isabelle
  imports Complex_Main
begin

section \<open>Values of the source language\<close>

text \<open>
  The handlers are TypeScript. Coordinates are pairs \<open>(lat, lon)\<close> of finite numbers in
  degrees, as the source's \<open>[number, number]\<close>. The result of a computation is a finite
  number, \<open>Infinity\<close> (the start value of a minimum) or \<open>NaN\<close> (the square root of a
  negative number, and everything computed from it).
\<close>

type_synonym point = "real \<times> real"

datatype number = Finite real | Infinity | NaN

text \<open>JavaScript's \<open>a < b\<close> and \<open>a <= b\<close>: false as soon as an operand is \<open>NaN\<close>.\<close>

fun number_less :: "number \<Rightarrow> number \<Rightarrow> bool" where
  "number_less (Finite a) (Finite b) = (a < b)"
| "number_less (Finite a) Infinity = True"
| "number_less a b = False"

fun number_le :: "number \<Rightarrow> number \<Rightarrow> bool" where
  "number_le (Finite a) (Finite b) = (a \<le> b)"
| "number_le (Finite a) Infinity = True"
| "number_le Infinity Infinity = True"
| "number_le a b = False"

text \<open>
  What the language runtime provides and the source files do not define: the two string
  methods, and the arithmetic of numbers. \<open>fl\<close> is the rounding that every \<open>+\<close>, \<open>-\<close>,
  \<open>*\<close> and \<open>/\<close> applies to its exact result; \<open>Math_sqrt\<close> is asked for arguments that
  are not negative only.
\<close>

record js_runtime =
  toLowerCase :: "string \<Rightarrow> string"
  trim :: "string \<Rightarrow> string"
  fl :: "real \<Rightarrow> real"
  Math_PI :: real
  Math_sin :: "real \<Rightarrow> real"
  Math_cos :: "real \<Rightarrow> real"
  Math_sqrt :: "real \<Rightarrow> real"
  Math_atan2 :: "real \<Rightarrow> real \<Rightarrow> real"

text \<open>\<open>Math.sqrt(x)\<close> for a finite \<open>x\<close>: \<open>NaN\<close> when \<open>x\<close> is negative.\<close>

definition js_sqrt :: "js_runtime \<Rightarrow> real \<Rightarrow> number" where
  "js_sqrt M x = (if x < 0 then NaN else Finite (Math_sqrt M x))"

text \<open>
  The angle of the point \<open>(x, y)\<close>, in \<open>(-pi, pi]\<close>, with the value 0 at the origin:
  what \<open>Math.atan2(y, x)\<close> approximates.
\<close>

definition atan2 :: "real \<Rightarrow> real \<Rightarrow> real" where
  "atan2 y x =
     (if 0 < x then arctan (y / x)
      else if x < 0 then (if 0 \<le> y then arctan (y / x) + pi else arctan (y / x) - pi)
      else if 0 < y then pi / 2
      else if y < 0 then - (pi / 2)
      else 0)"

text \<open>A runtime that computes without rounding error.\<close>

definition exact_arithmetic :: "js_runtime \<Rightarrow> bool" where
  "exact_arithmetic M =
     (fl M = (\<lambda>x. x) \<and> Math_PI M = pi \<and> Math_sin M = sin \<and> Math_cos M = cos \<and>
      Math_sqrt M = sqrt \<and> Math_atan2 M = atan2)"

text \<open>
  The two string methods on texts of the letters, digits and signs of ASCII:
  \<open>ascii_toLowerCase\<close> maps \<open>A\<close> to \<open>Z\<close> to lower case, \<open>ascii_trim\<close> removes blanks,
  tabs, line feeds, vertical tabs, form feeds and carriage returns at both ends.
\<close>

definition ascii_lower_char :: "char \<Rightarrow> char" where
  "ascii_lower_char c =
     (case map_of (zip ''ABCDEFGHIJKLMNOPQRSTUVWXYZ'' ''abcdefghijklmnopqrstuvwxyz'') c of
        Some l \<Rightarrow> l
      | None \<Rightarrow> c)"

definition ascii_toLowerCase :: "string \<Rightarrow> string" where
  "ascii_toLowerCase s = map ascii_lower_char s"

definition ascii_space :: "char \<Rightarrow> bool" where
  "ascii_space c = (c \<in> set [CHR 0x09, CHR 0x0A, CHR 0x0B, CHR 0x0C, CHR 0x0D, CHR '' ''])"

definition ascii_trim :: "string \<Rightarrow> string" where
  "ascii_trim s = rev (dropWhile ascii_space (rev (dropWhile ascii_space s)))"


section \<open>Double precision\<close>

text \<open>
  The rounding of IEEE 754 double precision, for results in the normal range: to the
  nearest multiple of the unit in the last place of the 53 bit significand, a tie going
  to the even multiple.
\<close>

definition round_half_even :: "real \<Rightarrow> int" where
  "round_half_even y =
     (let f = \<lfloor>y\<rfloor>; r = y - of_int f
      in if r < 1 / 2 then f else if 1 / 2 < r then f + 1 else if even f then f else f + 1)"

definition round_double :: "real \<Rightarrow> real" where
  "round_double x =
     (if x = 0 then 0
      else (let ulp = 2 powr (of_int (\<lfloor>log 2 \<bar>x\<bar>\<rfloor> - 52))
            in of_int (round_half_even (x / ulp)) * ulp))"


section \<open>Geodesy: \<open>src/app/api/trips/route.ts\<close>, lines 103 to 140\<close>

definition toRad :: "js_runtime \<Rightarrow> real \<Rightarrow> real" where
  "toRad M degrees = fl M (degrees * fl M (Math_PI M / 180))"

text \<open>The constant \<open>a\<close> of \<open>calculateDistance\<close>, lines 106 to 113.\<close>

definition haversine_a :: "js_runtime \<Rightarrow> point \<Rightarrow> point \<Rightarrow> real" where
  "haversine_a M start end' =
     (let dLat = toRad M (fl M (fst end' - fst start));
          dLon = toRad M (fl M (snd end' - snd start));
          lat1 = toRad M (fst start);
          lat2 = toRad M (fst end')
      in fl M (fl M (Math_sin M (fl M (dLat / 2)) * Math_sin M (fl M (dLat / 2))) +
               fl M (fl M (fl M (Math_sin M (fl M (dLon / 2)) * Math_sin M (fl M (dLon / 2))) *
                           Math_cos M lat1) *
                     Math_cos M lat2)))"

definition calculateDistance :: "js_runtime \<Rightarrow> point \<Rightarrow> point \<Rightarrow> number" where
  "calculateDistance M start end' =
     (let R = 6371;
          a = haversine_a M start end'
      in case (js_sqrt M a, js_sqrt M (fl M (1 - a))) of
           (Finite y, Finite x) \<Rightarrow>
             (let c = fl M (2 * Math_atan2 M y x) in Finite (fl M (R * c)))
         | _ \<Rightarrow> NaN)"

text \<open>
  The loop of \<open>distanceToRoute\<close>: \<open>minDistance\<close> is the accumulator, started at
  \<open>Infinity\<close>.
\<close>

fun distanceToRoute_loop :: "js_runtime \<Rightarrow> point \<Rightarrow> point list \<Rightarrow> number \<Rightarrow> number" where
  "distanceToRoute_loop M p [] minDistance = minDistance"
| "distanceToRoute_loop M p (routePoint # rest) minDistance =
     (let distance = calculateDistance M p routePoint
      in distanceToRoute_loop M p rest
           (if number_less distance minDistance then distance else minDistance))"

definition distanceToRoute :: "js_runtime \<Rightarrow> point \<Rightarrow> point list \<Rightarrow> number" where
  "distanceToRoute M p routeCoordinates = distanceToRoute_loop M p routeCoordinates Infinity"

text \<open>The third parameter is optional in the source: \<open>thresholdKm: number = 5\<close>.\<close>

definition isAlongRoute :: "js_runtime \<Rightarrow> point \<Rightarrow> point list \<Rightarrow> real option \<Rightarrow> bool" where
  "isAlongRoute M p routeCoordinates thresholdKm' =
     (let thresholdKm = (case thresholdKm' of None \<Rightarrow> 5 | Some t \<Rightarrow> t);
          distance = distanceToRoute M p routeCoordinates
      in number_le distance (Finite thresholdKm))"


section \<open>The distance of the specification\<close>

text \<open>
  The great-circle distance in km between two points given in degrees, by the haversine
  formula on a sphere of radius 6371 km.
\<close>

definition radians :: "real \<Rightarrow> real" where
  "radians degrees = degrees * pi / 180"

definition haversine_h :: "real \<Rightarrow> real \<Rightarrow> real \<Rightarrow> real" where
  "haversine_h phi1 phi2 dlambda =
     (sin ((phi2 - phi1) / 2))\<^sup>2 + cos phi1 * cos phi2 * (sin (dlambda / 2))\<^sup>2"

definition great_circle_km :: "point \<Rightarrow> point \<Rightarrow> real" where
  "great_circle_km p q =
     2 * 6371 *
     arcsin (sqrt (haversine_h (radians (fst p)) (radians (fst q)) (radians (snd q - snd p))))"

text \<open>Latitudes lie between the poles.\<close>

definition valid_latitude :: "point \<Rightarrow> bool" where
  "valid_latitude p = (- 90 \<le> fst p \<and> fst p \<le> 90)"




section \<open>JSON bodies, errors and responses\<close>

text \<open>
  A request body after \<open>request.json()\<close>. In an object a later duplicate key wins, as
  \<open>JSON.parse\<close> has it. \<open>None\<close> stands for \<open>undefined\<close>.
\<close>

datatype json =
    JNull
  | JBool bool
  | JNum real
  | JStr string
  | JArr "json list"
  | JObj "(string \<times> json) list"

datatype js_error = TypeError string | StoreError string | SyntaxError string

fun error_message :: "js_error \<Rightarrow> string" where
  "error_message (TypeError m) = m"
| "error_message (StoreError m) = m"
| "error_message (SyntaxError m) = m"

text \<open>
  \<open>key in body\<close>: a \<open>TypeError\<close> on a primitive (null, boolean, number, string). On an
  array it is false for the two keys the handler asks about.
\<close>

fun in_operator :: "string \<Rightarrow> json \<Rightarrow> js_error + bool" where
  "in_operator k (JObj kvs) = Inr (k \<in> set (map fst kvs))"
| "in_operator k (JArr xs) = Inr False"
| "in_operator k v = Inl (TypeError ''Cannot use 'in' operator to search for a key'')"

fun get_prop :: "json \<Rightarrow> string \<Rightarrow> json option" where
  "get_prop (JObj kvs) k = map_of (rev kvs) k"
| "get_prop v k = None"

fun truthy :: "json option \<Rightarrow> bool" where
  "truthy None = False"
| "truthy (Some JNull) = False"
| "truthy (Some (JBool b)) = b"
| "truthy (Some (JNum r)) = (r \<noteq> 0)"
| "truthy (Some (JStr x)) = (x \<noteq> [])"
| "truthy (Some (JArr xs)) = True"
| "truthy (Some (JObj kvs)) = True"


section \<open>Tables: \<open>src/db/seeds/trips.ts\<close> (the schema) and \<open>drizzle/0001_watery_kang.sql\<close>\<close>

text \<open>
  The coordinate columns hold the text \<open>lat,lon\<close> that the trip handler writes from two
  numbers and reads back with \<open>split(',').map(parseFloat)\<close>; the model keeps the pair of
  numbers, \<open>None\<close> for a null (or empty) column. \<open>route_geometry\<close> is a JSON column
  holding the list of points, or null.
\<close>

record trip =
  trip_id :: int
  userId :: string
  source :: string
  destination :: string
  sourceCoordinates :: "point option"
  destinationCoordinates :: "point option"
  travelDate :: string
  travelTime :: string
  transportMode :: string
  optimizationMode :: string
  trip_status :: string
  routeData :: "json option"
  routeGeometry :: "point list option"
  trip_createdAt :: string
  trip_updatedAt :: string

text \<open>
  A row of \<open>trip_matches\<close> is its autoincrement id with the values the handler gives.
  The table has a primary key on the id and no other uniqueness constraint.
\<close>

record match_values =
  tripId :: int
  matchedTripId :: int
  matchScore :: int
  status :: string
  createdAt :: string

type_synonym trip_match = "int \<times> match_values"

record group_row =
  group_id :: int
  group_name :: string
  group_tripId :: "int option"
  createdBy :: string
  group_status :: string
  group_createdAt :: string
  group_updatedAt :: string

record group_member =
  member_id :: int
  groupId :: int
  member_userId :: string
  role :: string
  joinedAt :: string

text \<open>
  The store: the four tables in rowid order, and for each the last id its autoincrement
  sequence has given out.
\<close>

record store =
  trips :: "trip list"
  tripMatches :: "trip_match list"
  groups :: "group_row list"
  groupMembers :: "group_member list"
  trips_seq :: int
  tripMatches_seq :: int
  groups_seq :: int
  groupMembers_seq :: int

text \<open>
  \<open>db.insert(tripMatches).values(rows)\<close>: one INSERT statement, every row appended under
  the next ids of the sequence.
\<close>

fun number_rows :: "int \<Rightarrow> match_values list \<Rightarrow> trip_match list" where
  "number_rows n [] = []"
| "number_rows n (r # rs) = (n + 1, r) # number_rows (n + 1) rs"

definition insert_matches :: "store \<Rightarrow> match_values list \<Rightarrow> store" where
  "insert_matches s rows =
     s\<lparr>tripMatches := tripMatches s @ number_rows (tripMatches_seq s) rows,
       tripMatches_seq := tripMatches_seq s + int (length rows)\<rparr>"


section \<open>Match scoring: \<open>src/app/api/trips/route.ts\<close>, lines 256 to 331\<close>

record sanitized =
  s_source :: string
  s_destination :: string
  s_travelDate :: string
  s_travelTime :: string
  s_transportMode :: string
  s_optimizationMode :: string
  s_routeData :: "json option"

text \<open>
  The guard and the test of the rules 2, 3 and 4:
  \<open>if (coords && geometry && geometry.length > 0) { if (isAlongRoute(coords, geometry, 5)) ... }\<close>.
\<close>

fun along_route_rule :: "js_runtime \<Rightarrow> point option \<Rightarrow> point list option \<Rightarrow> bool" where
  "along_route_rule M (Some coords) (Some geometry) =
     (length geometry > 0 \<and> isAlongRoute M coords geometry (Some 5))"
| "along_route_rule M coords geometry = False"

text \<open>\<open>matchReason = matchReason ? matchReason + ',tag' : 'tag'\<close>.\<close>

definition add_reason :: "string \<Rightarrow> string \<Rightarrow> string" where
  "add_reason matchReason tag = (if matchReason \<noteq> [] then matchReason @ '','' @ tag else tag)"

text \<open>
  One pass of the loop body up to rule 6, for one candidate: the pair of \<open>matchScore\<close>
  and \<open>matchReason\<close>, each rule updating the pair in the order of the source. The
  source also parses the candidate's destination coordinates and never reads them.
\<close>

definition score_candidate ::
  "js_runtime \<Rightarrow> sanitized \<Rightarrow> point option \<Rightarrow> point option \<Rightarrow> point list option \<Rightarrow> trip \<Rightarrow>
   int \<times> string" where
  "score_candidate M sanitizedData sourceCoords destCoords routeGeometry' potentialMatch =
     (let potentialSourceCoords = sourceCoordinates potentialMatch;
          potentialRouteGeometry = routeGeometry potentialMatch;
          r0 = (0, []);
          r1 = (if toLowerCase M (s_destination sanitizedData) =
                   toLowerCase M (destination potentialMatch)
                then (fst r0 + 50, ''same_destination'') else r0);
          r2 = (if along_route_rule M sourceCoords potentialRouteGeometry
                then (fst r1 + 40, add_reason (snd r1) ''pickup_along_route'') else r1);
          r3 = (if along_route_rule M destCoords potentialRouteGeometry
                then (fst r2 + 40, add_reason (snd r2) ''dropoff_along_route'') else r2);
          r4 = (if along_route_rule M potentialSourceCoords routeGeometry'
                then (fst r3 + 30, add_reason (snd r3) ''routes_overlap'') else r3);
          r5 = (if travelDate potentialMatch = s_travelDate sanitizedData
                then (fst r4 + 30, snd r4) else r4);
          r6 = (if toLowerCase M (transportMode potentialMatch) =
                   toLowerCase M (s_transportMode sanitizedData)
                then (fst r5 + 20, snd r5) else r5)
      in r6)"

definition matchScore_of ::
  "js_runtime \<Rightarrow> sanitized \<Rightarrow> point option \<Rightarrow> point option \<Rightarrow> point list option \<Rightarrow> trip \<Rightarrow>
   int" where
  "matchScore_of M sanitizedData sourceCoords destCoords routeGeometry' potentialMatch =
     fst (score_candidate M sanitizedData sourceCoords destCoords routeGeometry' potentialMatch)"

text \<open>The two rows pushed for a candidate whose score passes the threshold.\<close>

definition bidirectional_matches :: "int \<Rightarrow> int \<Rightarrow> int \<Rightarrow> string \<Rightarrow> match_values list" where
  "bidirectional_matches createdTripId potentialMatchId score matchTimestamp =
     [\<lparr>tripId = createdTripId, matchedTripId = potentialMatchId, matchScore = score,
       status = ''pending'', createdAt = matchTimestamp\<rparr>,
      \<lparr>tripId = potentialMatchId, matchedTripId = createdTripId, matchScore = score,
       status = ''pending'', createdAt = matchTimestamp\<rparr>]"

text \<open>The loop over \<open>potentialMatches\<close>, with \<open>matchInserts\<close> as the accumulator.\<close>

fun matching_loop ::
  "js_runtime \<Rightarrow> sanitized \<Rightarrow> point option \<Rightarrow> point option \<Rightarrow> point list option \<Rightarrow> int \<Rightarrow>
   string \<Rightarrow> trip list \<Rightarrow> match_values list \<Rightarrow> match_values list" where
  "matching_loop M sd sourceCoords destCoords geometry createdTripId matchTimestamp []
     matchInserts = matchInserts"
| "matching_loop M sd sourceCoords destCoords geometry createdTripId matchTimestamp
     (potentialMatch # rest) matchInserts =
     (let score = matchScore_of M sd sourceCoords destCoords geometry potentialMatch
      in matching_loop M sd sourceCoords destCoords geometry createdTripId matchTimestamp rest
           (if score > 50
            then matchInserts @
                 bidirectional_matches createdTripId (trip_id potentialMatch) score matchTimestamp
            else matchInserts))"

text \<open>
  The rules as the specification words them. Two texts are equal without regard to case
  when the runtime's lower-casing makes them equal. A coordinate lies within \<open>t\<close> km of a
  route when the route has a vertex whose great-circle distance from it is at most \<open>t\<close>.
\<close>

definition same_text_ignoring_case :: "js_runtime \<Rightarrow> string \<Rightarrow> string \<Rightarrow> bool" where
  "same_text_ignoring_case M a b = (toLowerCase M a = toLowerCase M b)"

definition within_km_of_route :: "real \<Rightarrow> point option \<Rightarrow> point list option \<Rightarrow> bool" where
  "within_km_of_route t coords geometry =
     (case (coords, geometry) of
        (Some p, Some L) \<Rightarrow> L \<noteq> [] \<and> list_ex (\<lambda>v. great_circle_km p v \<le> t) L
      | _ \<Rightarrow> False)"

text \<open>The same with the distances that the runtime computes.\<close>

definition computed_within_km ::
  "js_runtime \<Rightarrow> real \<Rightarrow> point option \<Rightarrow> point list option \<Rightarrow> bool" where
  "computed_within_km M t coords geometry =
     (case (coords, geometry) of
        (Some p, Some L) \<Rightarrow>
          L \<noteq> [] \<and> list_ex (\<lambda>v. number_le (calculateDistance M p v) (Finite t)) L
      | _ \<Rightarrow> False)"

definition points :: "bool \<Rightarrow> int \<Rightarrow> int" where
  "points holds n = (if holds then n else 0)"




section \<open>Trip creation: \<open>POST\<close> of \<open>src/app/api/trips/route.ts\<close>, lines 142 to 350\<close>

datatype payload = ErrorBody string "string option" | TripBody trip

datatype response = Response nat payload

text \<open>The outer \<open>catch\<close>: every error thrown in the handler becomes this response.\<close>

definition internal_error :: "js_error \<Rightarrow> response" where
  "internal_error err =
     Response 500 (ErrorBody (''Internal server error: '' @ error_message err) None)"

record route_result =
  coordinates :: "point list"
  distance :: real
  duration :: real

datatype insert_outcome = RowReturned | NoRowReturned | InsertThrows js_error

text \<open>
  What the handler gets from outside: the language runtime, the session's user id (\<open>None\<close> without a session),
  the parsed body (or the error of \<open>request.json()\<close>), the results of \<open>geocode\<close> and
  \<open>calculateRouteGeometry\<close> (both return null on every failure of their service), the
  two timestamps, what the insertion of the trip does (it returns the row, returns
  nothing or throws), and the error, when there is one, that the matching pass meets
  when it loads the other users' trips, inside its loop over the candidates, or when it
  inserts the batch of matches.
\<close>

record env =
  runtime :: js_runtime
  session :: "string option"
  request_json :: "js_error + json"
  geocode :: "string \<Rightarrow> point option"
  calculateRouteGeometry :: "point \<Rightarrow> point \<Rightarrow> string \<Rightarrow> route_result option"
  timestamp :: string
  matchTimestamp :: string
  insert_trip_outcome :: insert_outcome
  select_trips_error :: "js_error option"
  scoring_error :: "js_error option"
  insert_matches_error :: "js_error option"

text \<open>\<open>field.trim()\<close> on a field that passed the truthiness test.\<close>

definition trim_field :: "js_runtime \<Rightarrow> string \<Rightarrow> json option \<Rightarrow> response + string" where
  "trim_field M name v =
     (case v of
        Some (JStr x) \<Rightarrow> Inr (trim M x)
      | _ \<Rightarrow> Inl (internal_error (TypeError (name @ ''.trim is not a function''))))"

definition bind_result :: "'e + 'a \<Rightarrow> ('a \<Rightarrow> 'e + 'b) \<Rightarrow> 'e + 'b" where
  "bind_result m f = (case m of Inl e \<Rightarrow> Inl e | Inr a \<Rightarrow> f a)"

text \<open>Lines 181 to 190: the sanitized fields, trimmed in the order of the source.\<close>

definition sanitize :: "js_runtime \<Rightarrow> json \<Rightarrow> response + sanitized" where
  "sanitize M requestBody =
     bind_result (trim_field M ''source'' (get_prop requestBody ''source'')) (\<lambda>src.
     bind_result (trim_field M ''destination'' (get_prop requestBody ''destination'')) (\<lambda>dst.
     bind_result (trim_field M ''travelDate'' (get_prop requestBody ''travelDate'')) (\<lambda>date.
     bind_result (trim_field M ''travelTime'' (get_prop requestBody ''travelTime'')) (\<lambda>time.
     bind_result (trim_field M ''transportMode'' (get_prop requestBody ''transportMode'')) (\<lambda>mode.
     bind_result (trim_field M ''optimizationMode'' (get_prop requestBody ''optimizationMode'')) (\<lambda>opt.
       Inr \<lparr>s_source = src, s_destination = dst, s_travelDate = date, s_travelTime = time,
            s_transportMode = mode, s_optimizationMode = opt,
            s_routeData = (if truthy (get_prop requestBody ''routeData'')
                           then get_prop requestBody ''routeData'' else None)\<rparr>))))))"

text \<open>Lines 144 to 190: session, body, the \<open>userId\<close> check, required fields, sanitizing.\<close>

definition parse_request :: "env \<Rightarrow> response + (string \<times> sanitized)" where
  "parse_request e =
     (case session e of
        None \<Rightarrow> Inl (Response 401 (ErrorBody ''Authentication required''
                                   (Some ''AUTHENTICATION_REQUIRED'')))
      | Some uid \<Rightarrow>
     (case request_json e of
        Inl err \<Rightarrow> Inl (internal_error err)
      | Inr requestBody \<Rightarrow>
     (case in_operator ''userId'' requestBody of
        Inl err \<Rightarrow> Inl (internal_error err)
      | Inr hasUserId \<Rightarrow>
     (case in_operator ''user_id'' requestBody of
        Inl err \<Rightarrow> Inl (internal_error err)
      | Inr hasUser_id \<Rightarrow>
        if hasUserId \<or> hasUser_id
        then Inl (Response 400 (ErrorBody ''User ID cannot be provided in request body''
                                  (Some ''USER_ID_NOT_ALLOWED'')))
        else if \<not> truthy (get_prop requestBody ''source'')
                \<or> \<not> truthy (get_prop requestBody ''destination'')
                \<or> \<not> truthy (get_prop requestBody ''travelDate'')
                \<or> \<not> truthy (get_prop requestBody ''travelTime'')
                \<or> \<not> truthy (get_prop requestBody ''transportMode'')
                \<or> \<not> truthy (get_prop requestBody ''optimizationMode'')
        then Inl (Response 400 (ErrorBody
               ''Missing required fields: source, destination, travelDate, travelTime, transportMode, optimizationMode''
               (Some ''MISSING_REQUIRED_FIELDS'')))
        else bind_result (sanitize (runtime e) requestBody) (\<lambda>sanitizedData. Inr (uid, sanitizedData))))))"

text \<open>Lines 192 to 208: both texts are geocoded, then the route is asked for.\<close>

definition resolve_route :: "env \<Rightarrow> sanitized \<Rightarrow> response + (point \<times> point \<times> point list option)" where
  "resolve_route e sanitizedData =
     (let sourceCoords = geocode e (s_source sanitizedData);
          destCoords = geocode e (s_destination sanitizedData)
      in case (sourceCoords, destCoords) of
           (Some sc, Some dc) \<Rightarrow>
             (let route = calculateRouteGeometry e sc dc (s_transportMode sanitizedData);
                  routeGeometry' = (case route of None \<Rightarrow> None | Some r \<Rightarrow> Some (coordinates r))
              in Inr (sc, dc, routeGeometry'))
         | _ \<Rightarrow> Inl (Response 400 (ErrorBody
               ''Unable to geocode source or destination. Please provide more specific location names (e.g., \"New York, NY\" instead of just \"New York\")''
               (Some ''GEOCODING_FAILED''))))"

text \<open>Lines 210 to 238: the insertion of the trip; the store gives the row its id.\<close>

definition create_trip ::
  "env \<Rightarrow> store \<Rightarrow> string \<Rightarrow> sanitized \<Rightarrow> point \<Rightarrow> point \<Rightarrow> point list option \<Rightarrow>
   response + (trip \<times> store)" where
  "create_trip e s uid sanitizedData sourceCoords destCoords routeGeometry' =
     (case insert_trip_outcome e of
        InsertThrows err \<Rightarrow> Inl (internal_error err)
      | NoRowReturned \<Rightarrow> Inl (Response 500 (ErrorBody ''Failed to create trip''
                                             (Some ''CREATION_FAILED'')))
      | RowReturned \<Rightarrow>
          (let createdTrip =
                 \<lparr>trip_id = trips_seq s + 1,
                  userId = uid,
                  source = s_source sanitizedData,
                  destination = s_destination sanitizedData,
                  sourceCoordinates = Some sourceCoords,
                  destinationCoordinates = Some destCoords,
                  travelDate = s_travelDate sanitizedData,
                  travelTime = s_travelTime sanitizedData,
                  transportMode = s_transportMode sanitizedData,
                  optimizationMode = s_optimizationMode sanitizedData,
                  trip_status = ''active'',
                  routeData = s_routeData sanitizedData,
                  routeGeometry = routeGeometry',
                  trip_createdAt = timestamp e,
                  trip_updatedAt = timestamp e\<rparr>
           in Inr (createdTrip,
                   s\<lparr>trips := trips s @ [createdTrip], trips_seq := trips_seq s + 1\<rparr>)))"

text \<open>
  Lines 241 to 336, the body of the inner \<open>try\<close>: \<open>Inl\<close> is the error thrown out of it,
  \<open>Inr\<close> the store it leaves.
\<close>

definition potentialMatches_of :: "store \<Rightarrow> string \<Rightarrow> trip list" where
  "potentialMatches_of s uid =
     filter (\<lambda>t. trip_status t = ''active'' \<and> userId t \<noteq> uid) (trips s)"

definition run_matching ::
  "env \<Rightarrow> store \<Rightarrow> string \<Rightarrow> sanitized \<Rightarrow> point \<Rightarrow> point \<Rightarrow> point list option \<Rightarrow> trip \<Rightarrow>
   js_error + store" where
  "run_matching e s uid sanitizedData sourceCoords destCoords routeGeometry' createdTrip =
     (case select_trips_error e of
        Some err \<Rightarrow> Inl err
      | None \<Rightarrow>
     (let potentialMatches = potentialMatches_of s uid
      in case scoring_error e of
           Some err \<Rightarrow> Inl err
         | None \<Rightarrow>
     (let matchInserts =
            matching_loop (runtime e) sanitizedData (Some sourceCoords) (Some destCoords)
              routeGeometry'
              (trip_id createdTrip) (matchTimestamp e) potentialMatches []
      in if length matchInserts > 0
         then (case insert_matches_error e of
                 Some err \<Rightarrow> Inl err
               | None \<Rightarrow> Inr (insert_matches s matchInserts))
         else Inr s)))"

definition POST :: "env \<Rightarrow> store \<Rightarrow> store \<times> response" where
  "POST e s =
     (case parse_request e of
        Inl r \<Rightarrow> (s, r)
      | Inr (uid, sanitizedData) \<Rightarrow>
     (case resolve_route e sanitizedData of
        Inl r \<Rightarrow> (s, r)
      | Inr (sourceCoords, destCoords, routeGeometry') \<Rightarrow>
     (case create_trip e s uid sanitizedData sourceCoords destCoords routeGeometry' of
        Inl r \<Rightarrow> (s, r)
      | Inr (createdTrip, s1) \<Rightarrow>
     (case run_matching e s1 uid sanitizedData sourceCoords destCoords routeGeometry' createdTrip of
        Inl matchError \<Rightarrow> (s1, Response 201 (TripBody createdTrip))
      | Inr s2 \<Rightarrow> (s2, Response 201 (TripBody createdTrip))))))"


section \<open>Accepting a match: \<open>POST\<close> of \<open>src/unnamed/part_001\<close>\<close>

datatype accept_payload = AcceptError string string | GroupBody group_row "group_member list"

datatype accept_response = AcceptResponse nat accept_payload

text \<open>
  The two \<open>UPDATE\<close> statements of lines 104 to 127: every row from \<open>a\<close> to \<open>b\<close> gets
  the status \<open>accepted\<close>, the other rows stay as they are.
\<close>

definition accept_row :: "int \<Rightarrow> int \<Rightarrow> match_values \<Rightarrow> match_values" where
  "accept_row a b m =
     (if tripId m = a \<and> matchedTripId m = b then m\<lparr>status := ''accepted''\<rparr> else m)"

definition set_accepted :: "int \<Rightarrow> int \<Rightarrow> trip_match list \<Rightarrow> trip_match list" where
  "set_accepted a b rows = map (\<lambda>(i, m). (i, accept_row a b m)) rows"

definition members_of :: "int \<Rightarrow> group_member list \<Rightarrow> group_member list" where
  "members_of gid rows = filter (\<lambda>m. groupId m = gid) rows"

text \<open>
  Lines 145 to 243, the group of an accepted match. A query with \<open>limit(1)\<close> is the first
  row that fits, in rowid order. \<open>now\<close> is the time \<open>new Date().toISOString()\<close> gives.
\<close>

definition provision_group ::
  "store \<Rightarrow> string \<Rightarrow> trip \<Rightarrow> int \<Rightarrow> int \<Rightarrow> string \<Rightarrow> string \<Rightarrow> store \<times> accept_response" where
  "provision_group s1 userId' trip' tripId' matchedTripId' matchedUserId now =
     (case find (\<lambda>g. group_tripId g = Some tripId' \<or> group_tripId g = Some matchedTripId')
                (groups s1) of
        Some group' \<Rightarrow>
          (let s2 = (case find (\<lambda>m. groupId m = group_id group' \<and> member_userId m = userId')
                               (groupMembers s1) of
                       None \<Rightarrow>
                         s1\<lparr>groupMembers := groupMembers s1 @
                                [\<lparr>member_id = groupMembers_seq s1 + 1, groupId = group_id group',
                                  member_userId = userId', role = ''member'', joinedAt = now\<rparr>],
                            groupMembers_seq := groupMembers_seq s1 + 1\<rparr>
                     | Some m \<Rightarrow> s1)
           in (s2, AcceptResponse 200
                     (GroupBody group' (members_of (group_id group') (groupMembers s2)))))
      | None \<Rightarrow>
          (let group' = \<lparr>group_id = groups_seq s1 + 1,
                         group_name = ''Trip to '' @ destination trip' @ '' - '' @ travelDate trip',
                         group_tripId = Some tripId',
                         createdBy = userId',
                         group_status = ''active'',
                         group_createdAt = now,
                         group_updatedAt = now\<rparr>;
               s2 = s1\<lparr>groups := groups s1 @ [group'], groups_seq := groups_seq s1 + 1\<rparr>;
               s3 = s2\<lparr>groupMembers := groupMembers s2 @
                          [\<lparr>member_id = groupMembers_seq s2 + 1, groupId = group_id group',
                            member_userId = userId', role = ''admin'', joinedAt = now\<rparr>],
                       groupMembers_seq := groupMembers_seq s2 + 1\<rparr>;
               s4 = s3\<lparr>groupMembers := groupMembers s3 @
                          [\<lparr>member_id = groupMembers_seq s3 + 1, groupId = group_id group',
                            member_userId = matchedUserId, role = ''member'', joinedAt = now\<rparr>],
                       groupMembers_seq := groupMembers_seq s3 + 1\<rparr>
           in (s4, AcceptResponse 201
                     (GroupBody group' (members_of (group_id group') (groupMembers s4))))))"

text \<open>
  Lines 102 to 143: both directions are set to \<open>accepted\<close>, then the matched trip is
  read for its owner.
\<close>

definition accepted_store :: "store \<Rightarrow> int \<Rightarrow> int \<Rightarrow> store" where
  "accepted_store s a b = s\<lparr>tripMatches := set_accepted b a (set_accepted a b (tripMatches s))\<rparr>"

definition accept_record ::
  "store \<Rightarrow> string \<Rightarrow> trip \<Rightarrow> int \<Rightarrow> int \<Rightarrow> string \<Rightarrow> store \<times> accept_response" where
  "accept_record s userId' trip' tripId' matchedTripId' now =
     (let s1 = accepted_store s tripId' matchedTripId'
      in case find (\<lambda>t. trip_id t = matchedTripId') (trips s1) of
           None \<Rightarrow> (s1, AcceptResponse 404 (AcceptError ''Matched trip not found''
                                              ''MATCHED_TRIP_NOT_FOUND''))
         | Some matchedTrip \<Rightarrow>
             provision_group s1 userId' trip' tripId' matchedTripId' (userId matchedTrip) now)"

text \<open>
  The handler from line 48 on: the session has given \<open>userId\<close>, the path \<open>tripId\<close> and
  the body \<open>matchIdInt\<close>.
\<close>

definition accept_match :: "store \<Rightarrow> string \<Rightarrow> int \<Rightarrow> int \<Rightarrow> string \<Rightarrow> store \<times> accept_response" where
  "accept_match s userId' tripId' matchIdInt now =
     (case find (\<lambda>t. trip_id t = tripId' \<and> userId t = userId') (trips s) of
        None \<Rightarrow>
          (case find (\<lambda>t. trip_id t = tripId') (trips s) of
             None \<Rightarrow> (s, AcceptResponse 404 (AcceptError ''Trip not found'' ''TRIP_NOT_FOUND''))
           | Some t \<Rightarrow> (s, AcceptResponse 403 (AcceptError
                 ''You do not have permission to accept matches for this trip'' ''FORBIDDEN'')))
      | Some trip' \<Rightarrow>
     (case find (\<lambda>(i, m). i = matchIdInt) (tripMatches s) of
        None \<Rightarrow> (s, AcceptResponse 404 (AcceptError ''Trip match not found'' ''MATCH_NOT_FOUND''))
      | Some (i, matchRecord) \<Rightarrow>
        if tripId matchRecord \<noteq> tripId'
        then (s, AcceptResponse 400 (AcceptError ''Match does not belong to this trip''
                                       ''MATCH_MISMATCH''))
        else accept_record s userId' trip' tripId' (matchedTripId matchRecord) now))"


section \<open>Route cost: \<open>src/app/api/route/route.ts\<close>, lines 183 to 252\<close>

definition costPerKm :: "(string \<times> real) list" where
  "costPerKm =
     [(''car'', 0.5), (''cycling'', 0), (''walking'', 0), (''bus'', 0.15), (''train'', 0.25),
      (''flight'', 0.8)]"

text \<open>
  \<open>costPerKm[mode] || 0.3\<close>: the right operand is taken when the left is undefined or 0.
  The lookup is that of the table's own keys: a mode that names a property which every
  object inherits, as \<open>toString\<close>, is outside this definition (the source multiplies
  the distance by a function there). Costs are exact numbers.
\<close>

definition estimateCost :: "real \<Rightarrow> string \<Rightarrow> real" where
  "estimateCost distanceKm mode =
     (let rate = (case map_of costPerKm mode of
                    None \<Rightarrow> 0.3
                  | Some r \<Rightarrow> if r \<noteq> 0 then r else 0.3)
      in distanceKm * rate)"

text \<open>Lines 235 to 242: the cost of the main route, from its distance in meters.\<close>

definition main_route_cost :: "real \<Rightarrow> string \<Rightarrow> string \<Rightarrow> real" where
  "main_route_cost distance' transportMode' optimizationMode' =
     (let cost = estimateCost (distance' / 1000) transportMode'
      in if optimizationMode' = ''cheapest'' then cost * 0.8 else cost)"


section \<open>Notions of the specification\<close>

text \<open>The mirror of a row: the two trip ids swapped, everything else kept.\<close>

definition mirror :: "match_values \<Rightarrow> match_values" where
  "mirror m = m\<lparr>tripId := matchedTripId m, matchedTripId := tripId m\<rparr>"

text \<open>Every row of the table has a row with the ids swapped and the same score.\<close>

definition mirrored :: "trip_match list \<Rightarrow> bool" where
  "mirrored rows =
     list_all (\<lambda>(i, m). list_ex (\<lambda>(j, m'). tripId m' = matchedTripId m \<and>
                                           matchedTripId m' = tripId m \<and>
                                           matchScore m' = matchScore m) rows) rows"

text \<open>The pairs of trip ids of a table, one per row.\<close>

definition pairs_of :: "trip_match list \<Rightarrow> (int \<times> int) list" where
  "pairs_of rows = map (\<lambda>(i, m). (tripId m, matchedTripId m)) rows"

text \<open>The rows that name the trip \<open>c\<close> on either side.\<close>

definition records_for :: "int \<Rightarrow> match_values list \<Rightarrow> match_values list" where
  "records_for c rows = filter (\<lambda>r. tripId r = c \<or> matchedTripId r = c) rows"

definition is_member :: "int \<Rightarrow> string \<Rightarrow> group_member list \<Rightarrow> bool" where
  "is_member gid uid rows = list_ex (\<lambda>m. groupId m = gid \<and> member_userId m = uid) rows"

definition group_for_trips :: "int \<Rightarrow> int \<Rightarrow> group_row list \<Rightarrow> group_row option" where
  "group_for_trips a b rows = find (\<lambda>g. group_tripId g = Some a \<or> group_tripId g = Some b) rows"

text \<open>The per-mode rates as the specification lists them.\<close>

definition ratePerKm :: "string \<Rightarrow> real" where
  "ratePerKm mode =
     (if mode = ''car'' then 0.5
      else if mode = ''cycling'' then 0
      else if mode = ''walking'' then 0
      else if mode = ''bus'' then 0.15
      else if mode = ''train'' then 0.25
      else if mode = ''flight'' then 0.8
      else 0.3)"


text \<open>The rows that a matching pass has added to the table of matches.\<close>

definition new_match_rows :: "store \<Rightarrow> store \<Rightarrow> match_values list" where
  "new_match_rows s s' = map snd (drop (length (tripMatches s)) (tripMatches s'))"

text \<open>Of the six rules, as the runtime decides them, only the first holds.\<close>

definition only_same_destination ::
  "js_runtime \<Rightarrow> sanitized \<Rightarrow> point option \<Rightarrow> point option \<Rightarrow> point list option \<Rightarrow> trip \<Rightarrow>
   bool" where
  "only_same_destination M sd sc dc g c =
     (same_text_ignoring_case M (s_destination sd) (destination c)
      \<and> \<not> computed_within_km M 5 sc (routeGeometry c)
      \<and> \<not> computed_within_km M 5 dc (routeGeometry c)
      \<and> \<not> computed_within_km M 5 (sourceCoordinates c) g
      \<and> travelDate c \<noteq> s_travelDate sd
      \<and> \<not> same_text_ignoring_case M (transportMode c) (s_transportMode sd))"

text \<open>What a row says apart from its id, status and time: the two trips and the score.\<close>

definition shape :: "trip_match \<Rightarrow> int \<times> int \<times> int" where
  "shape row = (tripId (snd row), matchedTripId (snd row), matchScore (snd row))"

definition swapped :: "int \<times> int \<times> int \<Rightarrow> int \<times> int \<times> int" where
  "swapped x = (fst (snd x), fst x, snd (snd x))"

text \<open>The rows between the trips \<open>a\<close> and \<open>b\<close>, in either direction.\<close>

definition between :: "int \<Rightarrow> int \<Rightarrow> trip_match list \<Rightarrow> trip_match list" where
  "between a b rows =
     filter (\<lambda>(i, m). (tripId m = a \<and> matchedTripId m = b) \<or>
                       (tripId m = b \<and> matchedTripId m = a)) rows"


section \<open>Example data\<close>

text \<open>A runtime without rounding error, with the string methods of ASCII texts.\<close>

definition ex_runtime :: js_runtime where
  "ex_runtime =
     \<lparr>toLowerCase = ascii_toLowerCase, trim = ascii_trim, fl = (\<lambda>x. x), Math_PI = pi,
      Math_sin = sin, Math_cos = cos, Math_sqrt = sqrt, Math_atan2 = atan2\<rparr>"

definition ex_sanitized :: sanitized where
  "ex_sanitized =
     \<lparr>s_source = ''Lyon'', s_destination = ''Paris'', s_travelDate = ''2025-06-01'',
      s_travelTime = ''09:00'', s_transportMode = ''car'', s_optimizationMode = ''fastest'',
      s_routeData = None\<rparr>"

definition ex_candidate :: trip where
  "ex_candidate =
     \<lparr>trip_id = 1, userId = ''bob'', source = ''Dijon'', destination = ''PARIS'',
      sourceCoordinates = Some (0, 0), destinationCoordinates = Some (0, 180),
      travelDate = ''2025-06-01'', travelTime = ''10:00'', transportMode = ''Car'',
      optimizationMode = ''cheapest'', trip_status = ''active'', routeData = None,
      routeGeometry = Some [(0, 180), (0, 0)], trip_createdAt = ''t0'', trip_updatedAt = ''t0''\<rparr>"

text \<open>A candidate that shares the destination with \<open>ex_sanitized\<close> and nothing else.\<close>

definition ex_candidate_50 :: trip where
  "ex_candidate_50 =
     \<lparr>trip_id = 2, userId = ''carol'', source = ''Nice'', destination = ''paris'',
      sourceCoordinates = None, destinationCoordinates = None,
      travelDate = ''2025-07-14'', travelTime = ''10:00'', transportMode = ''bus'',
      optimizationMode = ''cheapest'', trip_status = ''active'', routeData = None,
      routeGeometry = None, trip_createdAt = ''t0'', trip_updatedAt = ''t0''\<rparr>"


text \<open>The trip that \<open>ex_sanitized\<close> becomes for the user \<open>alice\<close>, with the id 3.\<close>

definition ex_created :: trip where
  "ex_created =
     \<lparr>trip_id = 3, userId = ''alice'', source = ''Lyon'', destination = ''Paris'',
      sourceCoordinates = Some (0, 0), destinationCoordinates = Some (0, 0),
      travelDate = ''2025-06-01'', travelTime = ''09:00'', transportMode = ''car'',
      optimizationMode = ''fastest'', trip_status = ''active'', routeData = None,
      routeGeometry = Some [(0, 0)], trip_createdAt = ''t1'', trip_updatedAt = ''t1''\<rparr>"

text \<open>The store before and after the insertion of that trip.\<close>

definition ex_store0 :: store where
  "ex_store0 =
     \<lparr>trips = [ex_candidate, ex_candidate_50], tripMatches = [], groups = [],
      groupMembers = [], trips_seq = 2, tripMatches_seq = 0, groups_seq = 0,
      groupMembers_seq = 0\<rparr>"

definition ex_store1 :: store where
  "ex_store1 =
     \<lparr>trips = [ex_candidate, ex_candidate_50, ex_created], tripMatches = [], groups = [],
      groupMembers = [], trips_seq = 3, tripMatches_seq = 0, groups_seq = 0,
      groupMembers_seq = 0\<rparr>"

definition ex_body :: json where
  "ex_body =
     JObj [(''source'', JStr '' Lyon''), (''destination'', JStr ''Paris ''),
           (''travelDate'', JStr ''2025-06-01''), (''travelTime'', JStr ''09:00''),
           (''transportMode'', JStr ''car''), (''optimizationMode'', JStr ''fastest'')]"

definition ex_env :: env where
  "ex_env =
     \<lparr>runtime = ex_runtime,
      session = Some ''alice'',
      request_json = Inr ex_body,
      geocode = (\<lambda>location. Some (0, 0)),
      calculateRouteGeometry =
        (\<lambda>start end' mode. Some \<lparr>coordinates = [(0, 0)], distance = 0, duration = 0\<rparr>),
      timestamp = ''t1'',
      matchTimestamp = ''t2'',
      insert_trip_outcome = RowReturned,
      select_trips_error = None,
      scoring_error = None,
      insert_matches_error = None\<rparr>"


text \<open>The store after the matching pass for \<open>ex_created\<close>: the pair with trip 1.\<close>

definition ex_store2 :: store where
  "ex_store2 =
     \<lparr>trips = [ex_candidate, ex_candidate_50, ex_created],
      tripMatches = [(1, \<lparr>tripId = 3, matchedTripId = 1, matchScore = 210,
                          status = ''pending'', createdAt = ''t2''\<rparr>),
                     (2, \<lparr>tripId = 1, matchedTripId = 3, matchScore = 210,
                          status = ''pending'', createdAt = ''t2''\<rparr>)],
      groups = [], groupMembers = [], trips_seq = 3, tripMatches_seq = 2, groups_seq = 0,
      groupMembers_seq = 0\<rparr>"


definition ex_body_with_userId :: json where
  "ex_body_with_userId =
     JObj [(''source'', JStr ''Lyon''), (''destination'', JStr ''Paris''),
           (''travelDate'', JStr ''2025-06-01''), (''travelTime'', JStr ''09:00''),
           (''transportMode'', JStr ''car''), (''optimizationMode'', JStr ''fastest''),
           (''userId'', JStr ''bob'')]"


text \<open>
  A later trip of the user \<open>dave\<close> that scores 80 against \<open>ex_created\<close>, and the store
  after \<open>alice\<close> has accepted the match with trip 1: a group for trip 3 with \<open>alice\<close>
  and \<open>bob\<close>, and the pending pair between the trips 3 and 4.
\<close>

definition ex_candidate_80 :: trip where
  "ex_candidate_80 =
     \<lparr>trip_id = 4, userId = ''dave'', source = ''Nice'', destination = ''Paris'',
      sourceCoordinates = None, destinationCoordinates = None,
      travelDate = ''2025-06-01'', travelTime = ''11:00'', transportMode = ''bus'',
      optimizationMode = ''cheapest'', trip_status = ''active'', routeData = None,
      routeGeometry = None, trip_createdAt = ''t4'', trip_updatedAt = ''t4''\<rparr>"

definition ex_group :: group_row where
  "ex_group =
     \<lparr>group_id = 1, group_name = ''Trip to Paris - 2025-06-01'', group_tripId = Some 3,
      createdBy = ''alice'', group_status = ''active'', group_createdAt = ''t3'',
      group_updatedAt = ''t3''\<rparr>"

definition ex_store3 :: store where
  "ex_store3 =
     \<lparr>trips = [ex_candidate, ex_candidate_50, ex_created, ex_candidate_80],
      tripMatches = [(1, \<lparr>tripId = 3, matchedTripId = 1, matchScore = 210,
                          status = ''accepted'', createdAt = ''t2''\<rparr>),
                     (2, \<lparr>tripId = 1, matchedTripId = 3, matchScore = 210,
                          status = ''accepted'', createdAt = ''t2''\<rparr>),
                     (3, \<lparr>tripId = 4, matchedTripId = 3, matchScore = 80,
                          status = ''pending'', createdAt = ''t4''\<rparr>),
                     (4, \<lparr>tripId = 3, matchedTripId = 4, matchScore = 80,
                          status = ''pending'', createdAt = ''t4''\<rparr>)],
      groups = [ex_group],
      groupMembers = [\<lparr>member_id = 1, groupId = 1, member_userId = ''alice'', role = ''admin'',
                       joinedAt = ''t3''\<rparr>,
                      \<lparr>member_id = 2, groupId = 1, member_userId = ''bob'', role = ''member'',
                       joinedAt = ''t3''\<rparr>],
      trips_seq = 4, tripMatches_seq = 4, groups_seq = 1, groupMembers_seq = 2\<rparr>"



text \<open>
  Double precision at one pair of antipodes: the rounding of the four operations, the
  double nearest to pi, and the values of \<open>Math.sin\<close> and \<open>Math.cos\<close> at the three
  arguments that the distance between \<open>(-82, -179)\<close> and \<open>(82, 1)\<close> asks for, which are
  the doubles nearest to the sine and cosine there. The other fields are rounded from
  the exact functions.
\<close>

definition double_sin :: "real \<Rightarrow> real" where
  "double_sin x =
     (if x = 6445416618514801 / 4503599627370496 then 4459770905381437 / 4503599627370496
      else if x = 884279719003555 / 562949953421312 then 1
      else round_double (sin x))"

definition double_cos :: "real \<Rightarrow> real" where
  "double_cos x =
     (if x = 6445416618514801 / 4503599627370496 \<or> x = - (6445416618514801 / 4503599627370496)
      then 2507119702494989 / 18014398509481984
      else round_double (cos x))"

definition double_runtime :: js_runtime where
  "double_runtime =
     \<lparr>toLowerCase = ascii_toLowerCase, trim = ascii_trim, fl = round_double,
      Math_PI = 884279719003555 / 281474976710656,
      Math_sin = double_sin, Math_cos = double_cos,
      Math_sqrt = (\<lambda>x. round_double (sqrt x)),
      Math_atan2 = (\<lambda>y x. round_double (atan2 y x))\<rparr>"

section \<open>Properties of the geodesy functions\<close>

lemma loop_not_NaN:
  "m \<noteq> NaN \<Longrightarrow> distanceToRoute_loop M p L m \<noteq> NaN"
proof (induction L arbitrary: m)
  case Nil
  then show ?case by simp
next
  case (Cons v L)
  show ?case
  proof (cases "number_less (calculateDistance M p v) m")
    case True
    then have "calculateDistance M p v \<noteq> NaN" by (cases "calculateDistance M p v") auto
    with True Cons.IH [of "calculateDistance M p v"] show ?thesis by simp
  next
    case False
    with Cons.IH [OF Cons.prems] show ?thesis by simp
  qed
qed

lemma number_le_pick:
  assumes "m \<noteq> NaN"
  shows "number_le (if number_less d m then d else m) (Finite t) =
           (number_le m (Finite t) \<or> number_le d (Finite t))"
  using assms by (cases d; cases m) auto

lemma pick_not_NaN:
  "m \<noteq> NaN \<Longrightarrow> (if number_less d m then d else m) \<noteq> NaN"
  by (cases d; cases m) auto

lemma loop_le:
  "m \<noteq> NaN \<Longrightarrow>
   number_le (distanceToRoute_loop M p L m) (Finite t) =
     (number_le m (Finite t) \<or> list_ex (\<lambda>v. number_le (calculateDistance M p v) (Finite t)) L)"
proof (induction L arbitrary: m)
  case Nil
  then show ?case by simp
next
  case (Cons v L)
  from Cons.IH [OF pick_not_NaN [OF Cons.prems, of "calculateDistance M p v"]]
       number_le_pick [OF Cons.prems, of "calculateDistance M p v" t]
  show ?case by (simp add: Let_def)
qed

lemma isAlongRoute_iff:
  "isAlongRoute M p L (Some t) = list_ex (\<lambda>v. number_le (calculateDistance M p v) (Finite t)) L"
  by (simp add: isAlongRoute_def distanceToRoute_def loop_le)

lemma isAlongRoute_default:
  "isAlongRoute M p L None = isAlongRoute M p L (Some 5)"
  by (simp add: isAlongRoute_def)

lemma along_route_rule_computed:
  "along_route_rule M coords geometry = computed_within_km M 5 coords geometry"
  by (cases coords; cases geometry) (auto simp add: computed_within_km_def isAlongRoute_iff)

text \<open>The loop keeps the least of the distances that are numbers.\<close>

lemma Min_insert_smaller:
  fixes d m :: real
  assumes "finite S" and "d < m"
  shows "Min (insert m (insert d S)) = Min (insert d S)"
proof -
  have "Min (insert m (insert d S)) = min m (Min (insert d S))"
    using assms(1) by (intro Min_insert) simp_all
  moreover have "Min (insert d S) \<le> d"
    using assms(1) by (intro Min_le) simp_all
  ultimately show ?thesis
    using assms(2) by simp
qed

lemma Min_insert_not_smaller:
  fixes d m :: real
  assumes "finite S" and "\<not> d < m"
  shows "Min (insert m (insert d S)) = Min (insert m S)"
proof -
  have "Min (insert d (insert m S)) = min d (Min (insert m S))"
    using assms(1) by (intro Min_insert) simp_all
  moreover have "Min (insert m S) \<le> m"
    using assms(1) by (intro Min_le) simp_all
  ultimately show ?thesis
    using assms(2) by (simp add: insert_commute)
qed

lemma loop_all_Finite:
  assumes "\<forall>v \<in> set L. calculateDistance M p v = Finite (d v)"
  shows "distanceToRoute_loop M p L (Finite m) = Finite (Min (insert m (d ` set L)))"
  using assms
proof (induction L arbitrary: m)
  case Nil
  show ?case by simp
next
  case (Cons v L)
  have fin: "finite (d ` set L)" by simp
  have dv: "calculateDistance M p v = Finite (d v)" using Cons.prems by simp
  have rest: "\<forall>v \<in> set L. calculateDistance M p v = Finite (d v)" using Cons.prems by simp
  show ?case
  proof (cases "d v < m")
    case True
    with dv Cons.IH [OF rest, of "d v"] Min_insert_smaller [OF fin True]
    show ?thesis by simp
  next
    case False
    with dv Cons.IH [OF rest, of m] Min_insert_not_smaller [OF fin False]
    show ?thesis by simp
  qed
qed

lemma distanceToRoute_all_Finite:
  assumes "\<forall>v \<in> set L. calculateDistance M p v = Finite (d v)" and "L \<noteq> []"
  shows "distanceToRoute M p L = Finite (Min (d ` set L))"
proof -
  from assms(2) obtain v L' where L: "L = v # L'" by (cases L) auto
  have dv: "calculateDistance M p v = Finite (d v)" using assms(1) L by simp
  have rest: "\<forall>v \<in> set L'. calculateDistance M p v = Finite (d v)" using assms(1) L by simp
  show ?thesis
    unfolding L distanceToRoute_def using dv loop_all_Finite [OF rest, of "d v"] by simp
qed

lemma distanceToRoute_NaN_vertex:
  "calculateDistance M p q = NaN \<Longrightarrow> distanceToRoute M p [q] = Infinity"
  by (simp add: distanceToRoute_def)

lemma calculateDistance_NaN:
  "1 < haversine_a M p q \<Longrightarrow> fl M (1 - haversine_a M p q) < 0 \<Longrightarrow> calculateDistance M p q = NaN"
  by (simp add: calculateDistance_def js_sqrt_def)

subsection \<open>Without rounding error\<close>

lemma sin_half_square:
  "(sin (((y::real) - x) / 2))\<^sup>2 = (1 - cos (y - x)) / 2"
proof -
  have e: "y - x = 2 * ((y - x) / 2)" by argo
  have "cos (2 * ((y - x) / 2)) = 1 - 2 * (sin ((y - x) / 2))\<^sup>2"
    by (rule cos_double_sin)
  then have "cos (y - x) = 1 - 2 * (sin ((y - x) / 2))\<^sup>2"
    using e by metis
  then show ?thesis
    by simp
qed

lemma sin_square_le_one: "(sin (t::real))\<^sup>2 \<le> 1"
proof -
  have "(sin t)\<^sup>2 + (cos t)\<^sup>2 = 1" by simp
  moreover have "0 \<le> (cos t)\<^sup>2" by simp
  ultimately show ?thesis by linarith
qed

lemma haversine_h_bounds:
  assumes "0 \<le> cos x" and "0 \<le> cos y"
  shows "0 \<le> haversine_h x y l" and "haversine_h x y l \<le> 1"
proof -
  let ?s = "(sin (l / 2))\<^sup>2"
  have s: "0 \<le> ?s" by simp
  have s1: "?s \<le> 1" by (rule sin_square_le_one)
  have cc: "0 \<le> cos x * cos y" using assms by simp
  have scc: "0 \<le> cos x * cos y * ?s" using cc s by (rule mult_nonneg_nonneg)
  have "0 \<le> (sin ((y - x) / 2))\<^sup>2" by simp
  with scc show "0 \<le> haversine_h x y l"
    unfolding haversine_h_def by linarith
  have "cos x * cos y * ?s \<le> cos x * cos y * 1"
    using s1 cc by (rule mult_left_mono)
  then have "haversine_h x y l \<le> (1 - cos (y - x)) / 2 + cos x * cos y"
    unfolding haversine_h_def sin_half_square by simp
  also have "\<dots> = (1 + cos (x + y)) / 2"
    by (simp add: cos_diff cos_add field_simps)
  also have "\<dots> \<le> 1" using cos_le_one [of "x + y"] by simp
  finally show "haversine_h x y l \<le> 1" .
qed

lemma atan2_arcsin:
  assumes "0 \<le> a" "a \<le> 1"
  shows "atan2 (sqrt a) (sqrt (1 - a)) = arcsin (sqrt a)"
proof (cases "a = 1")
  case True
  then show ?thesis by (simp add: atan2_def)
next
  case False
  with assms have lt: "a < 1" by simp
  then have pos: "0 < sqrt (1 - a)" by simp
  have "- 1 < sqrt a" using assms by (smt (verit) real_sqrt_ge_zero)
  moreover have "sqrt a < 1" using lt assms by (simp add: real_sqrt_lt_1_iff)
  ultimately have "arcsin (sqrt a) = arctan (sqrt a / sqrt (1 - (sqrt a)\<^sup>2))"
    by (rule arcsin_arctan)
  with assms pos show ?thesis by (simp add: atan2_def)
qed

lemma cos_radians_nonneg:
  assumes "valid_latitude p"
  shows "0 \<le> cos (radians (fst p))"
proof -
  have "fst p * (pi / 180) \<le> 90 * (pi / 180)"
    using assms by (intro mult_right_mono) (simp_all add: valid_latitude_def)
  moreover have "(- 90) * (pi / 180) \<le> fst p * (pi / 180)"
    using assms by (intro mult_right_mono) (simp_all add: valid_latitude_def)
  ultimately show ?thesis
    unfolding radians_def by (intro cos_ge_zero) simp_all
qed

lemma exact_fields:
  assumes "exact_arithmetic M"
  shows "fl M x = x" "Math_PI M = pi" "Math_sin M x = sin x" "Math_cos M x = cos x"
    "Math_sqrt M x = sqrt x" "Math_atan2 M y x = atan2 y x"
  using assms by (simp_all add: exact_arithmetic_def)

lemma exact_toRad: "exact_arithmetic M \<Longrightarrow> toRad M d = radians d"
  by (simp add: toRad_def exact_fields radians_def)

lemma radians_diff: "radians (a - b) = radians a - radians b"
  by (simp add: radians_def left_diff_distrib diff_divide_distrib)

lemma exact_haversine_a:
  assumes "exact_arithmetic M"
  shows "haversine_a M p q =
           haversine_h (radians (fst p)) (radians (fst q)) (radians (snd q - snd p))"
proof -
  have "haversine_a M p q =
          sin ((radians (fst q) - radians (fst p)) / 2) * sin ((radians (fst q) - radians (fst p)) / 2) +
          sin (radians (snd q - snd p) / 2) * sin (radians (snd q - snd p) / 2) *
          cos (radians (fst p)) * cos (radians (fst q))"
    unfolding haversine_a_def Let_def
    by (simp only: exact_fields [OF assms] exact_toRad [OF assms] radians_diff)
  also have "\<dots> = haversine_h (radians (fst p)) (radians (fst q)) (radians (snd q - snd p))"
    unfolding haversine_h_def power2_eq_square by (simp only: mult_ac)
  finally show ?thesis .
qed

lemma exact_calculateDistance:
  assumes "exact_arithmetic M" and "valid_latitude p" and "valid_latitude q"
  shows "calculateDistance M p q = Finite (great_circle_km p q)"
proof -
  let ?a = "haversine_a M p q"
  have b: "0 \<le> ?a" "?a \<le> 1"
    unfolding exact_haversine_a [OF assms(1)]
    by (rule haversine_h_bounds [OF cos_radians_nonneg [OF assms(2)]
               cos_radians_nonneg [OF assms(3)]])+
  have "calculateDistance M p q = Finite (6371 * (2 * atan2 (sqrt ?a) (sqrt (1 - ?a))))"
    using b by (simp add: calculateDistance_def Let_def js_sqrt_def exact_fields [OF assms(1)])
  also have "\<dots> = Finite (6371 * (2 * arcsin (sqrt ?a)))"
    by (simp only: atan2_arcsin [OF b])
  also have "\<dots> = Finite (great_circle_km p q)"
    by (simp add: great_circle_km_def exact_haversine_a [OF assms(1)])
  finally show ?thesis .
qed


subsection \<open>Great-circle distances on the equator and between antipodes\<close>

lemma great_circle_equator:
  assumes "\<bar>b - a\<bar> \<le> 180"
  shows "great_circle_km (0, a) (0, b) = 6371 * \<bar>b - a\<bar> * pi / 180"
proof -
  let ?x = "radians (b - a) / 2"
  have x: "\<bar>?x\<bar> = \<bar>b - a\<bar> * pi / 360"
    by (simp add: radians_def abs_mult)
  have "\<bar>b - a\<bar> * pi \<le> 180 * pi"
    using assms by (intro mult_right_mono) simp_all
  then have le: "\<bar>?x\<bar> \<le> pi / 2" unfolding x by simp
  have nn: "0 \<le> sin \<bar>?x\<bar>"
    using le by (intro sin_ge_zero) (simp_all, linarith?)
  have "haversine_h (radians 0) (radians 0) (radians (b - a)) = (sin ?x)\<^sup>2"
    by (simp add: haversine_h_def radians_def)
  also have "\<dots> = (sin \<bar>?x\<bar>)\<^sup>2"
    by (cases "0 \<le> ?x") (simp_all add: abs_if)
  finally have h: "sqrt (haversine_h (radians 0) (radians 0) (radians (b - a))) = sin \<bar>?x\<bar>"
    using nn by simp
  have "arcsin (sin \<bar>?x\<bar>) = \<bar>?x\<bar>"
    using le by (intro arcsin_sin) (simp_all, linarith?)
  then have "great_circle_km (0, a) (0, b) = 2 * 6371 * \<bar>?x\<bar>"
    by (simp add: great_circle_km_def h)
  then show ?thesis unfolding x by simp
qed

lemma great_circle_antipodes:
  "great_circle_km (- 82, - 179) (82, 1) = 6371 * pi"
proof -
  have r: "radians (- 82) = - radians 82" "radians (1 - - 179) = pi"
    by (simp_all add: radians_def)
  have "haversine_h (radians (- 82)) (radians 82) (radians (1 - - 179))
        = (sin (radians 82))\<^sup>2 + (cos (radians 82))\<^sup>2"
    unfolding r by (simp add: haversine_h_def power2_eq_square)
  then have "haversine_h (radians (- 82)) (radians 82) (radians (1 - - 179)) = 1"
    by simp
  then show ?thesis
    by (simp add: great_circle_km_def)
qed

lemma ex_distances:
  "great_circle_km (0, 0) (0, 0) = 0"
  "great_circle_km (0, 0) (0, 180) = 6371 * pi"
  "great_circle_km (0, 0) (0, 1 / 100) = 6371 * pi / 18000"
  "great_circle_km (0, 90) (0, 180) = 6371 * pi / 2"
  "great_circle_km (0, 90) (0, 1 / 100) = 6371 * 8999 * pi / 18000"
  "great_circle_km (0, 1 / 100) (0, 90) = 6371 * 8999 * pi / 18000"
  "great_circle_km (0, 1 / 100) (0, 3 / 100) = 6371 * pi / 9000"
  using great_circle_equator [of 0 0] great_circle_equator [of 180 0]
    great_circle_equator [of "1 / 100" 0] great_circle_equator [of 180 90]
    great_circle_equator [of "1 / 100" 90] great_circle_equator [of 90 "1 / 100"]
    great_circle_equator [of "3 / 100" "1 / 100"]
  by simp_all

lemma ex_thresholds:
  "\<not> 6371 * pi \<le> 5" "6371 * pi / 18000 \<le> 5" "\<not> 6371 * pi / 2 \<le> 5"
  "\<not> 6371 * 8999 * pi / 18000 \<le> 5" "6371 * pi / 9000 \<le> 5" "6371 * pi \<le> 30000"
  using pi_ge_two pi_less_4 by simp_all

subsection \<open>Double precision at a pair of antipodes\<close>

text \<open>
  A number of the binade \<open>[2^(52-n), 2^(53-n))\<close> is rounded on the grid of step \<open>2^-n\<close>;
  then the roundings that the distance between \<open>(-82, -179)\<close> and \<open>(82, 1)\<close> asks for.
\<close>

lemma floor_log2_binade:
  fixes x :: real
  assumes "2 powr (of_int e) \<le> \<bar>x\<bar>" and "\<bar>x\<bar> < 2 powr (of_int (e + 1))"
  shows "\<lfloor>log 2 \<bar>x\<bar>\<rfloor> = e"
proof -
  have pos: "0 < \<bar>x\<bar>" using assms(1) by (smt (verit) powr_gt_zero)
  have "2 powr (of_int e) \<le> \<bar>x\<bar> \<and> \<bar>x\<bar> < 2 powr (of_int e + 1)"
    using assms by simp
  then show ?thesis
    using floor_log_eq_powr_iff [of "\<bar>x\<bar>" 2 e] pos by simp
qed

lemma powr_neg_nat: "(2::real) powr (of_int (- int n)) = 1 / 2 ^ n"
  by (simp add: powr_minus powr_realpow inverse_eq_divide)

lemma round_double_grid:
  fixes x :: real
  assumes "2 ^ 52 / 2 ^ n \<le> \<bar>x\<bar>" and "\<bar>x\<bar> < 2 ^ 53 / 2 ^ n"
  shows "round_double x = of_int (round_half_even (x * 2 ^ n)) / 2 ^ n"
proof -
  have nz: "x \<noteq> 0" using assms(1) by (smt (verit) divide_pos_pos zero_less_power)
  have p52: "(2::real) powr (of_int (52 - int n)) = 2 ^ 52 / 2 ^ n"
    using powr_diff [of "2::real" 52 "real n"] by (simp add: powr_realpow)
  have p53: "(2::real) powr (of_int (52 - int n + 1)) = 2 ^ 53 / 2 ^ n"
    using powr_diff [of "2::real" 53 "real n"] by (simp add: powr_realpow)
  have e: "\<lfloor>log 2 \<bar>x\<bar>\<rfloor> = 52 - int n"
    using assms by (intro floor_log2_binade) (simp_all only: p52 p53)
  have u: "(2::real) powr (of_int (\<lfloor>log 2 \<bar>x\<bar>\<rfloor> - 52)) = 1 / 2 ^ n"
    unfolding e using powr_neg_nat [of n] by simp
  show ?thesis
    using nz by (simp add: round_double_def Let_def u del: of_int_diff)
qed

lemma rd_1: "round_double (176855943800711 / 10133099161583616) = 5030569068109113 / 288230376151711744"
proof -
  have "round_double (176855943800711 / 10133099161583616) = of_int (round_half_even ((176855943800711 / 10133099161583616) * 2 ^ 58)) / 2 ^ 58"
    by (rule round_double_grid) simp_all
  also have "\<dots> = 5030569068109113 / 288230376151711744"
    by (simp add: round_half_even_def Let_def)
  finally show ?thesis .
qed

lemma rd_2: "round_double 164 = 164"
proof -
  have "round_double 164 = of_int (round_half_even (164 * 2 ^ 45)) / 2 ^ 45"
    by (rule round_double_grid) simp_all
  also have "\<dots> = 164"
    by (simp add: round_half_even_def Let_def)
  finally show ?thesis .
qed

lemma rd_3: "round_double 180 = 180"
proof -
  have "round_double 180 = of_int (round_half_even (180 * 2 ^ 45)) / 2 ^ 45"
    by (rule round_double_grid) simp_all
  also have "\<dots> = 180"
    by (simp add: round_half_even_def Let_def)
  finally show ?thesis .
qed

lemma rd_4: "round_double (206253331792473633 / 72057594037927936) = 6445416618514801 / 2251799813685248"
proof -
  have "round_double (206253331792473633 / 72057594037927936) = of_int (round_half_even ((206253331792473633 / 72057594037927936) * 2 ^ 51)) / 2 ^ 51"
    by (rule round_double_grid) simp_all
  also have "\<dots> = 6445416618514801 / 2251799813685248"
    by (simp add: round_half_even_def Let_def)
  finally show ?thesis .
qed

lemma rd_5: "round_double (226375608064910085 / 72057594037927936) = 884279719003555 / 281474976710656"
proof -
  have "round_double (226375608064910085 / 72057594037927936) = of_int (round_half_even ((226375608064910085 / 72057594037927936) * 2 ^ 51)) / 2 ^ 51"
    by (rule round_double_grid) simp_all
  also have "\<dots> = 884279719003555 / 281474976710656"
    by (simp add: round_half_even_def Let_def)
  finally show ?thesis .
qed

lemma rd_6: "round_double (- (206253331792473633 / 144115188075855872)) = - (6445416618514801 / 4503599627370496)"
proof -
  have "round_double (- (206253331792473633 / 144115188075855872)) = of_int (round_half_even ((- (206253331792473633 / 144115188075855872)) * 2 ^ 52)) / 2 ^ 52"
    by (rule round_double_grid) simp_all
  also have "\<dots> = - (6445416618514801 / 4503599627370496)"
    by (simp add: round_half_even_def Let_def)
  finally show ?thesis .
qed

lemma rd_7: "round_double (206253331792473633 / 144115188075855872) = 6445416618514801 / 4503599627370496"
proof -
  have "round_double (206253331792473633 / 144115188075855872) = of_int (round_half_even ((206253331792473633 / 144115188075855872) * 2 ^ 52)) / 2 ^ 52"
    by (rule round_double_grid) simp_all
  also have "\<dots> = 6445416618514801 / 4503599627370496"
    by (simp add: round_half_even_def Let_def)
  finally show ?thesis .
qed

lemma rd_8: "round_double (6445416618514801 / 4503599627370496) = 6445416618514801 / 4503599627370496"
proof -
  have "round_double (6445416618514801 / 4503599627370496) = of_int (round_half_even ((6445416618514801 / 4503599627370496) * 2 ^ 52)) / 2 ^ 52"
    by (rule round_double_grid) simp_all
  also have "\<dots> = 6445416618514801 / 4503599627370496"
    by (simp add: round_half_even_def Let_def)
  finally show ?thesis .
qed

lemma rd_9: "round_double (884279719003555 / 562949953421312) = 884279719003555 / 562949953421312"
proof -
  have "round_double (884279719003555 / 562949953421312) = of_int (round_half_even ((884279719003555 / 562949953421312) * 2 ^ 52)) / 2 ^ 52"
    by (rule round_double_grid) simp_all
  also have "\<dots> = 884279719003555 / 562949953421312"
    by (simp add: round_half_even_def Let_def)
  finally show ?thesis .
qed

lemma rd_10: "round_double (19889556528486762294526464184969 / 20282409603651670423947251286016) = 8832737443003841 / 9007199254740992"
proof -
  have "round_double (19889556528486762294526464184969 / 20282409603651670423947251286016) = of_int (round_half_even ((19889556528486762294526464184969 / 20282409603651670423947251286016) * 2 ^ 53)) / 2 ^ 53"
    by (rule round_double_grid) simp_all
  also have "\<dots> = 8832737443003841 / 9007199254740992"
    by (simp add: round_half_even_def Let_def)
  finally show ?thesis .
qed

lemma rd_11: "round_double 1 = 1"
proof -
  have "round_double 1 = of_int (round_half_even (1 * 2 ^ 52)) / 2 ^ 52"
    by (rule round_double_grid) simp_all
  also have "\<dots> = 1"
    by (simp add: round_half_even_def Let_def)
  finally show ?thesis .
qed

lemma rd_12: "round_double (2507119702494989 / 18014398509481984) = 2507119702494989 / 18014398509481984"
proof -
  have "round_double (2507119702494989 / 18014398509481984) = of_int (round_half_even ((2507119702494989 / 18014398509481984) * 2 ^ 55)) / 2 ^ 55"
    by (rule round_double_grid) simp_all
  also have "\<dots> = 2507119702494989 / 18014398509481984"
    by (simp add: round_half_even_def Let_def)
  finally show ?thesis .
qed

lemma rd_13: "round_double (6285649202638562152591570110121 / 324518553658426726783156020576256) = 2791388987794435 / 144115188075855872"
proof -
  have "round_double (6285649202638562152591570110121 / 324518553658426726783156020576256) = of_int (round_half_even ((6285649202638562152591570110121 / 324518553658426726783156020576256) * 2 ^ 58)) / 2 ^ 58"
    by (rule round_double_grid) simp_all
  also have "\<dots> = 2791388987794435 / 144115188075855872"
    by (simp add: round_half_even_def Let_def)
  finally show ?thesis .
qed

lemma rd_14: "round_double (144115188075855891 / 144115188075855872) = 4503599627370497 / 4503599627370496"
proof -
  have "round_double (144115188075855891 / 144115188075855872) = of_int (round_half_even ((144115188075855891 / 144115188075855872) * 2 ^ 52)) / 2 ^ 52"
    by (rule round_double_grid) simp_all
  also have "\<dots> = 4503599627370497 / 4503599627370496"
    by (simp add: round_half_even_def Let_def)
  finally show ?thesis .
qed

lemma rd_15: "round_double (- (1 / 4503599627370496)) = - (1 / 4503599627370496)"
proof -
  have "round_double (- (1 / 4503599627370496)) = of_int (round_half_even ((- (1 / 4503599627370496)) * 2 ^ 104)) / 2 ^ 104"
    by (rule round_double_grid) simp_all
  also have "\<dots> = - (1 / 4503599627370496)"
    by (simp add: round_half_even_def Let_def)
  finally show ?thesis .
qed

lemmas rd_all = rd_1 rd_2 rd_3 rd_4 rd_5 rd_6 rd_7 rd_8 rd_9 rd_10 rd_11 rd_12 rd_13 rd_14 rd_15

lemma double_haversine_a:
  "haversine_a double_runtime (- 82, - 179) (82, 1) = 4503599627370497 / 4503599627370496"
  by (simp add: haversine_a_def toRad_def Let_def double_runtime_def double_sin_def
        double_cos_def rd_all)

lemma double_calculateDistance:
  "calculateDistance double_runtime (- 82, - 179) (82, 1) = NaN"
  by (simp add: calculateDistance_def Let_def js_sqrt_def double_haversine_a)
     (simp add: double_runtime_def rd_all)

subsection \<open>The distance to a route\<close>

lemma distanceToRoute_exact:
  assumes "exact_arithmetic M" and "valid_latitude p" and "list_all valid_latitude L"
  shows "distanceToRoute M p [] = Infinity"
    and "L \<noteq> [] \<Longrightarrow> distanceToRoute M p L = Finite (Min (great_circle_km p ` set L))"
    and "isAlongRoute M p L (Some t) = (L \<noteq> [] \<and> Min (great_circle_km p ` set L) \<le> t)"
proof -
  show "distanceToRoute M p [] = Infinity" by (simp add: distanceToRoute_def)
  have all: "\<forall>v \<in> set L. calculateDistance M p v = Finite (great_circle_km p v)"
    using assms(3) exact_calculateDistance [OF assms(1) assms(2)] by (simp add: list_all_iff)
  show "L \<noteq> [] \<Longrightarrow> distanceToRoute M p L = Finite (Min (great_circle_km p ` set L))"
    by (rule distanceToRoute_all_Finite [OF all])
  show "isAlongRoute M p L (Some t) = (L \<noteq> [] \<and> Min (great_circle_km p ` set L) \<le> t)"
  proof (cases "L = []")
    case True
    then show ?thesis by (simp add: isAlongRoute_def distanceToRoute_def)
  next
    case False
    with distanceToRoute_all_Finite [OF all False] show ?thesis
      by (simp add: isAlongRoute_def)
  qed
qed

text \<open>
  Claim C8. The distance from a point to a route is not always the least great-circle
  distance to a vertex. In double precision the constant \<open>a\<close> of \<open>calculateDistance\<close>
  for the point \<open>(-82, -179)\<close> and the vertex \<open>(82, 1)\<close>, its antipode, is
  \<open>1 + 2^-52\<close>, so that \<open>1 - a\<close> is negative, its square root and the distance are
  \<open>NaN\<close>, the comparison of the loop fails, \<open>distanceToRoute\<close> returns \<open>Infinity\<close> for
  the route of that one vertex, and \<open>isAlongRoute\<close> is false for the threshold of
  30000 km. The great-circle distance of the two points is \<open>6371 * pi\<close> km, about
  20015 km, which is below that threshold.
\<close>

theorem distanceToRoute_antipodes_double:
  "haversine_a double_runtime (- 82, - 179) (82, 1) = 1 + 1 / 2 ^ 52
   \<and> calculateDistance double_runtime (- 82, - 179) (82, 1) = NaN
   \<and> distanceToRoute double_runtime (- 82, - 179) [(82, 1)] = Infinity
   \<and> isAlongRoute double_runtime (- 82, - 179) [(82, 1)] (Some 30000) = False
   \<and> Min (great_circle_km (- 82, - 179) ` set [(82, 1)]) = 6371 * pi
   \<and> 6371 * pi \<le> 30000"
proof -
  have a: "haversine_a double_runtime (- 82, - 179) (82, 1) = 1 + 1 / 2 ^ 52"
    by (simp add: double_haversine_a)
  have d: "distanceToRoute double_runtime (- 82, - 179) [(82, 1)] = Infinity"
    using double_calculateDistance by (rule distanceToRoute_NaN_vertex)
  have i: "isAlongRoute double_runtime (- 82, - 179) [(82, 1)] (Some 30000) = False"
    by (simp add: isAlongRoute_iff double_calculateDistance)
  have m: "Min (great_circle_km (- 82, - 179) ` set [(82, 1)]) = 6371 * pi"
    by (simp add: great_circle_antipodes)
  from a double_calculateDistance d i m ex_thresholds(6) show ?thesis by blast
qed

text \<open>
  At that input the rule of the score that asks for a vertex within 5 km gives no
  points, in double precision as by the great-circle distance.
\<close>

lemma along_route_rule_antipodes_double:
  "along_route_rule double_runtime (Some (- 82, - 179)) (Some [(82, 1)]) = False
   \<and> within_km_of_route 5 (Some (- 82, - 179)) (Some [(82, 1)]) = False"
  using pi_ge_two
  by (simp add: along_route_rule_computed computed_within_km_def double_calculateDistance
        within_km_of_route_def great_circle_antipodes)

section \<open>Properties of the scoring\<close>

lemma score_candidate_fst:
  "fst (score_candidate M sd sc dc g c) =
     points (toLowerCase M (s_destination sd) = toLowerCase M (destination c)) 50
   + points (along_route_rule M sc (routeGeometry c)) 40
   + points (along_route_rule M dc (routeGeometry c)) 40
   + points (along_route_rule M (sourceCoordinates c) g) 30
   + points (travelDate c = s_travelDate sd) 30
   + points (toLowerCase M (transportMode c) = toLowerCase M (s_transportMode sd)) 20"
  by (simp add: score_candidate_def points_def Let_def)

lemma matchScore_computed:
  "matchScore_of M sd sc dc g c =
     points (same_text_ignoring_case M (s_destination sd) (destination c)) 50
   + points (computed_within_km M 5 sc (routeGeometry c)) 40
   + points (computed_within_km M 5 dc (routeGeometry c)) 40
   + points (computed_within_km M 5 (sourceCoordinates c) g) 30
   + points (travelDate c = s_travelDate sd) 30
   + points (same_text_ignoring_case M (transportMode c) (s_transportMode sd)) 20"
  by (simp only: matchScore_of_def score_candidate_fst along_route_rule_computed
        same_text_ignoring_case_def)






lemma ex_runtime_exact: "exact_arithmetic ex_runtime"
  by (simp add: exact_arithmetic_def ex_runtime_def)

lemma ex_runtime_toLowerCase: "toLowerCase ex_runtime = ascii_toLowerCase"
  by (simp add: ex_runtime_def)

lemma ex_same_text:
  "same_text_ignoring_case ex_runtime ''Paris'' ''PARIS''"
  "same_text_ignoring_case ex_runtime ''Paris'' ''paris''"
  "same_text_ignoring_case ex_runtime ''Paris'' ''Paris''"
  "same_text_ignoring_case ex_runtime ''Car'' ''car''"
  "\<not> same_text_ignoring_case ex_runtime ''bus'' ''car''"
  by (simp_all add: same_text_ignoring_case_def ex_runtime_toLowerCase
        ascii_toLowerCase_def ascii_lower_char_def)


section \<open>Properties of the matching loop\<close>

lemma matching_loop_concat:
  "matching_loop M sd sc dc g tid ts cs acc =
     acc @ concat (map (\<lambda>c. if matchScore_of M sd sc dc g c > 50
                              then bidirectional_matches tid (trip_id c) (matchScore_of M sd sc dc g c) ts
                              else []) cs)"
  by (induction cs arbitrary: acc) (simp_all add: Let_def)

lemma records_for_Nil: "records_for c [] = []"
  by (simp add: records_for_def)

lemma records_for_append: "records_for c (xs @ ys) = records_for c xs @ records_for c ys"
  by (simp add: records_for_def)

lemma records_for_bidirectional:
  "records_for c (bidirectional_matches tid c' n ts) =
     (if c = c' \<or> c = tid then bidirectional_matches tid c' n ts else [])"
  by (auto simp add: records_for_def bidirectional_matches_def)

lemma records_for_other:
  assumes "c \<notin> trip_id ` set cs" and "c \<noteq> tid"
  shows "records_for c (concat (map (\<lambda>c'. if P c' then bidirectional_matches tid (trip_id c') (f c') ts else []) cs)) = []"
  using assms by (induction cs) (auto simp add: records_for_append records_for_bidirectional records_for_Nil)

lemma records_for_candidate:
  assumes "distinct (map trip_id cs)" and "tid \<notin> trip_id ` set cs" and "c \<in> set cs"
  shows "records_for (trip_id c)
           (concat (map (\<lambda>c'. if P c' then bidirectional_matches tid (trip_id c') (f c') ts else []) cs))
         = (if P c then bidirectional_matches tid (trip_id c) (f c) ts else [])"
  using assms
proof (induction cs)
  case Nil
  then show ?case by simp
next
  case (Cons a cs)
  have tid: "trip_id a \<noteq> tid" "tid \<notin> trip_id ` set cs" using Cons.prems(2) by auto
  show ?case
  proof (cases "c = a")
    case True
    have "trip_id a \<notin> trip_id ` set cs" using Cons.prems(1) by simp
    from records_for_other [OF this tid(1)] True show ?thesis
      by (simp add: records_for_append records_for_bidirectional records_for_Nil)
  next
    case False
    then have c: "c \<in> set cs" using Cons.prems(3) by simp
    have "trip_id a \<notin> trip_id ` set cs" using Cons.prems(1) by simp
    with c have ne: "trip_id c \<noteq> trip_id a" by (metis imageI)
    have ne2: "trip_id c \<noteq> tid" using c tid(2) by auto
    have d: "distinct (map trip_id cs)" using Cons.prems(1) by simp
    from Cons.IH [OF d tid(2) c] ne ne2 show ?thesis
      by (simp add: records_for_append records_for_bidirectional records_for_Nil)
  qed
qed


lemma only_same_destination_50:
  "only_same_destination M sd sc dc g c \<Longrightarrow> matchScore_of M sd sc dc g c = 50"
  by (simp add: only_same_destination_def matchScore_computed points_def)

lemma loop_records_for_candidate:
  assumes "distinct (map trip_id cs)" and "tid \<notin> trip_id ` set cs" and "c \<in> set cs"
  shows "records_for (trip_id c) (matching_loop M sd sc dc g tid ts cs []) =
           (if matchScore_of M sd sc dc g c > 50
            then bidirectional_matches tid (trip_id c) (matchScore_of M sd sc dc g c) ts
            else [])"
  by (simp only: matching_loop_concat append_Nil records_for_candidate [OF assms])

lemma map_snd_number_rows: "map snd (number_rows n rows) = rows"
  by (induction rows arbitrary: n) simp_all

lemma new_match_rows_insert: "new_match_rows s (insert_matches s rows) = rows"
  by (simp add: new_match_rows_def insert_matches_def map_snd_number_rows)

lemma new_match_rows_same: "new_match_rows s s = []"
  by (simp add: new_match_rows_def)

lemma run_matching_no_fault:
  assumes "select_trips_error e = None" "scoring_error e = None" "insert_matches_error e = None"
  shows "\<exists>s2. run_matching e s1 uid sd sc dc g createdTrip = Inr s2
           \<and> trips s2 = trips s1
           \<and> new_match_rows s1 s2 =
               matching_loop (runtime e) sd (Some sc) (Some dc) g (trip_id createdTrip) (matchTimestamp e)
                 (potentialMatches_of s1 uid) []"
proof (cases "matching_loop (runtime e) sd (Some sc) (Some dc) g (trip_id createdTrip) (matchTimestamp e)
                 (potentialMatches_of s1 uid) [] = []")
  case True
  with assms show ?thesis
    by (simp add: run_matching_def new_match_rows_same)
next
  case False
  with assms show ?thesis
    by (simp add: run_matching_def new_match_rows_insert) (simp add: insert_matches_def)
qed

lemma created_not_candidate:
  assumes "distinct (map trip_id (trips s1))" and "createdTrip \<in> set (trips s1)"
    and "userId createdTrip = uid"
  shows "trip_id createdTrip \<notin> trip_id ` set (potentialMatches_of s1 uid)"
proof
  assume "trip_id createdTrip \<in> trip_id ` set (potentialMatches_of s1 uid)"
  then obtain c where c: "c \<in> set (trips s1)" "userId c \<noteq> uid" "trip_id c = trip_id createdTrip"
    by (auto simp add: potentialMatches_of_def)
  from assms(1) c(1) assms(2) c(3) have "c = createdTrip"
    by (meson distinct_map inj_onD)
  with c(2) assms(3) show False by simp
qed

text \<open>
  Claim C2. In a matching pass that meets no error, the rows added for a candidate are the
  two rows of the pair when the candidate's score is above 50, and none otherwise: rows
  exist for the candidate exactly when its score is strictly greater than 50. A candidate
  for which only the destination rule holds scores exactly 50 and gets no row. The trip
  ids of the store are distinct (the primary key) and the created trip is the caller's.
\<close>

theorem match_records_iff_score_above_50:
  assumes "select_trips_error e = None" and "scoring_error e = None"
    and "insert_matches_error e = None"
    and "distinct (map trip_id (trips s1))"
    and "createdTrip \<in> set (trips s1)" and "userId createdTrip = uid"
    and "c \<in> set (potentialMatches_of s1 uid)"
  shows "\<exists>s2. run_matching e s1 uid sd sc dc g createdTrip = Inr s2
           \<and> records_for (trip_id c) (new_match_rows s1 s2) =
               (if matchScore_of (runtime e) sd (Some sc) (Some dc) g c > 50
                then bidirectional_matches (trip_id createdTrip) (trip_id c)
                       (matchScore_of (runtime e) sd (Some sc) (Some dc) g c) (matchTimestamp e)
                else [])
           \<and> (records_for (trip_id c) (new_match_rows s1 s2) \<noteq> []) =
               (matchScore_of (runtime e) sd (Some sc) (Some dc) g c > 50)
           \<and> (only_same_destination (runtime e) sd (Some sc) (Some dc) g c \<longrightarrow>
                matchScore_of (runtime e) sd (Some sc) (Some dc) g c = 50 \<and>
                records_for (trip_id c) (new_match_rows s1 s2) = [])"
proof -
  from run_matching_no_fault [OF assms(1-3)] obtain s2 where
    run: "run_matching e s1 uid sd sc dc g createdTrip = Inr s2" and
    new: "new_match_rows s1 s2 =
            matching_loop (runtime e) sd (Some sc) (Some dc) g (trip_id createdTrip) (matchTimestamp e)
              (potentialMatches_of s1 uid) []"
    by blast
  have d: "distinct (map trip_id (potentialMatches_of s1 uid))"
    unfolding potentialMatches_of_def using assms(4) by (rule distinct_map_filter)
  note fresh = created_not_candidate [OF assms(4) assms(5) assms(6)]
  have r: "records_for (trip_id c) (new_match_rows s1 s2) =
               (if matchScore_of (runtime e) sd (Some sc) (Some dc) g c > 50
                then bidirectional_matches (trip_id createdTrip) (trip_id c)
                       (matchScore_of (runtime e) sd (Some sc) (Some dc) g c) (matchTimestamp e)
                else [])"
    unfolding new by (rule loop_records_for_candidate [OF d fresh assms(7)])
  have iff: "(records_for (trip_id c) (new_match_rows s1 s2) \<noteq> []) =
               (matchScore_of (runtime e) sd (Some sc) (Some dc) g c > 50)"
    unfolding r by (simp add: bidirectional_matches_def)
  have only: "only_same_destination (runtime e) sd (Some sc) (Some dc) g c \<longrightarrow>
                matchScore_of (runtime e) sd (Some sc) (Some dc) g c = 50 \<and>
                records_for (trip_id c) (new_match_rows s1 s2) = []"
    unfolding r using only_same_destination_50 by simp
  from run r iff only show ?thesis by blast
qed

lemma ex_potentialMatches: "potentialMatches_of ex_store1 ''alice'' = [ex_candidate, ex_candidate_50]"
  by (simp add: potentialMatches_of_def ex_store1_def ex_candidate_def ex_candidate_50_def ex_created_def)

lemma ex_only_same_destination:
  "only_same_destination ex_runtime ex_sanitized (Some (0, 0)) (Some (0, 0)) (Some [(0, 0)]) ex_candidate_50"
  by (simp add: only_same_destination_def ex_sanitized_def ex_candidate_50_def
        computed_within_km_def ex_same_text)

lemma ex_calculateDistance:
  "calculateDistance ex_runtime (0, 0) (0, 0) = Finite 0"
  "calculateDistance ex_runtime (0, 0) (0, 180) = Finite (6371 * pi)"
  using exact_calculateDistance [OF ex_runtime_exact, of "(0, 0)" "(0, 0)"]
    exact_calculateDistance [OF ex_runtime_exact, of "(0, 0)" "(0, 180)"]
  by (simp_all add: valid_latitude_def ex_distances)

lemma ex_candidate_score:
  "matchScore_of ex_runtime ex_sanitized (Some (0, 0)) (Some (0, 0)) (Some [(0, 0)]) ex_candidate = 210"
  by (simp add: matchScore_computed ex_sanitized_def ex_candidate_def points_def
        computed_within_km_def ex_same_text ex_calculateDistance)

theorem match_records_iff_score_above_50_witness:
  "select_trips_error ex_env = None \<and> scoring_error ex_env = None
   \<and> insert_matches_error ex_env = None
   \<and> distinct (map trip_id (trips ex_store1))
   \<and> ex_created \<in> set (trips ex_store1) \<and> userId ex_created = ''alice''
   \<and> ex_candidate \<in> set (potentialMatches_of ex_store1 ''alice'')
   \<and> ex_candidate_50 \<in> set (potentialMatches_of ex_store1 ''alice'')
   \<and> only_same_destination ex_runtime ex_sanitized (Some (0, 0)) (Some (0, 0)) (Some [(0, 0)]) ex_candidate_50
   \<and> (\<exists>s2. run_matching ex_env ex_store1 ''alice'' ex_sanitized (0, 0) (0, 0) (Some [(0, 0)])
               ex_created = Inr s2
            \<and> records_for 1 (new_match_rows ex_store1 s2) = bidirectional_matches 3 1 210 ''t2''
            \<and> records_for 2 (new_match_rows ex_store1 s2) = [])"
proof -
  have f: "select_trips_error ex_env = None" "scoring_error ex_env = None"
          "insert_matches_error ex_env = None"
    by (simp_all add: ex_env_def)
  have d: "distinct (map trip_id (trips ex_store1))"
    by (simp add: ex_store1_def ex_candidate_def ex_candidate_50_def ex_created_def)
  have cr: "ex_created \<in> set (trips ex_store1)" "userId ex_created = ''alice''"
    by (simp_all add: ex_store1_def ex_created_def)
  have c1: "ex_candidate \<in> set (potentialMatches_of ex_store1 ''alice'')"
    and c2: "ex_candidate_50 \<in> set (potentialMatches_of ex_store1 ''alice'')"
    by (simp_all add: ex_potentialMatches)
  have ids: "trip_id ex_candidate = 1" "trip_id ex_candidate_50 = 2" "trip_id ex_created = 3"
            "matchTimestamp ex_env = ''t2''" "runtime ex_env = ex_runtime"
    by (simp_all add: ex_candidate_def ex_candidate_50_def ex_created_def ex_env_def)
  note a = match_records_iff_score_above_50 [OF f d cr c1,
             of ex_sanitized "(0, 0)" "(0, 0)" "Some [(0, 0)]"]
  note b = match_records_iff_score_above_50 [OF f d cr c2,
             of ex_sanitized "(0, 0)" "(0, 0)" "Some [(0, 0)]"]
  from a b have "\<exists>s2. run_matching ex_env ex_store1 ''alice'' ex_sanitized (0, 0) (0, 0) (Some [(0, 0)])
               ex_created = Inr s2
            \<and> records_for 1 (new_match_rows ex_store1 s2) = bidirectional_matches 3 1 210 ''t2''
            \<and> records_for 2 (new_match_rows ex_store1 s2) = []"
    using ex_only_same_destination ex_candidate_score ids by auto
  with f d cr c1 c2 ex_only_same_destination show ?thesis by simp
qed

section \<open>Mirror records\<close>

lemma mirrored_rows:
  "mirrored rows = (\<forall>r \<in> set rows. \<exists>r' \<in> set rows. shape r' = swapped (shape r))"
  by (simp add: mirrored_def list_all_iff list_ex_iff case_prod_beta shape_def swapped_def)

lemma mirrored_iff:
  "mirrored rows = (\<forall>x \<in> shape ` set rows. swapped x \<in> shape ` set rows)"
proof
  assume m: "mirrored rows"
  show "\<forall>x \<in> shape ` set rows. swapped x \<in> shape ` set rows"
  proof
    fix x assume "x \<in> shape ` set rows"
    then obtain r where r: "r \<in> set rows" "x = shape r" by blast
    with m obtain r' where "r' \<in> set rows" "shape r' = swapped (shape r)"
      unfolding mirrored_rows by blast
    with r show "swapped x \<in> shape ` set rows" by (metis imageI)
  qed
next
  assume c: "\<forall>x \<in> shape ` set rows. swapped x \<in> shape ` set rows"
  show "mirrored rows"
    unfolding mirrored_rows
  proof
    fix r assume "r \<in> set rows"
    then have "swapped (shape r) \<in> shape ` set rows" using c by blast
    then show "\<exists>r' \<in> set rows. shape r' = swapped (shape r)" by (metis imageE)
  qed
qed

lemma accept_row_same:
  "tripId (accept_row a b m) = tripId m"
  "matchedTripId (accept_row a b m) = matchedTripId m"
  "matchScore (accept_row a b m) = matchScore m"
  by (simp_all add: accept_row_def)

lemma shape_set_accepted: "map shape (set_accepted a b rows) = map shape rows"
  by (simp add: set_accepted_def shape_def case_prod_beta accept_row_same)

lemma shape_set_set_accepted: "shape ` set (set_accepted a b rows) = shape ` set rows"
  using shape_set_accepted [of a b rows] by (metis set_map)

lemma mirrored_set_accepted:
  "mirrored (set_accepted b a (set_accepted a b rows)) = mirrored rows"
  by (simp only: mirrored_iff shape_set_set_accepted)

lemma shape_number_rows:
  "shape ` set (number_rows n rows) = (\<lambda>m. (tripId m, matchedTripId m, matchScore m)) ` set rows"
  by (induction rows arbitrary: n) (simp_all add: shape_def)

lemma loop_rows:
  assumes "r \<in> set (matching_loop M sd sc dc g tid ts cs [])"
  shows "status r = ''pending'' \<and> createdAt r = ts \<and> mirror r \<in> set (matching_loop M sd sc dc g tid ts cs [])"
  using assms
  by (auto simp add: matching_loop_concat bidirectional_matches_def mirror_def split: if_splits)

lemma mirror_fields:
  "tripId (mirror m) = matchedTripId m" "matchedTripId (mirror m) = tripId m"
  "matchScore (mirror m) = matchScore m" "status (mirror m) = status m"
  "createdAt (mirror m) = createdAt m"
  by (simp_all add: mirror_def)

lemma mirrored_append_batch:
  assumes "mirrored rows" and "\<forall>r \<in> set batch. mirror r \<in> set batch"
  shows "mirrored (rows @ number_rows n batch)"
proof -
  let ?B = "(\<lambda>m. (tripId m, matchedTripId m, matchScore m)) ` set batch"
  have B: "swapped x \<in> ?B" if "x \<in> ?B" for x
  proof -
    from that obtain m where m: "m \<in> set batch" "x = (tripId m, matchedTripId m, matchScore m)"
      by blast
    with assms(2) have "mirror m \<in> set batch" by simp
    moreover have "swapped x = (tripId (mirror m), matchedTripId (mirror m), matchScore (mirror m))"
      using m(2) by (simp add: swapped_def mirror_fields)
    ultimately show ?thesis by (metis (no_types, lifting) imageI)
  qed
  have R: "swapped x \<in> shape ` set rows" if "x \<in> shape ` set rows" for x
    using assms(1) that unfolding mirrored_iff by blast
  have "shape ` set (rows @ number_rows n batch) = shape ` set rows \<union> ?B"
    by (simp only: set_append image_Un shape_number_rows)
  then show ?thesis
    unfolding mirrored_iff using B R by blast
qed

lemma mirrored_insert_loop:
  "mirrored (tripMatches s) \<Longrightarrow>
   mirrored (tripMatches (insert_matches s (matching_loop M sd sc dc g tid ts cs [])))"
  using loop_rows by (simp add: insert_matches_def mirrored_append_batch)

lemma run_matching_tripMatches:
  assumes "run_matching e s uid sd sc dc g t = Inr s2"
  shows "s2 = s \<or> s2 = insert_matches s (matching_loop (runtime e) sd (Some sc) (Some dc) g (trip_id t)
                           (matchTimestamp e) (potentialMatches_of s uid) [])"
proof (cases "select_trips_error e")
  case (Some err)
  with assms show ?thesis by (simp add: run_matching_def)
next
  case sel: None
  show ?thesis
  proof (cases "scoring_error e")
    case (Some err)
    with sel assms show ?thesis by (simp add: run_matching_def)
  next
    case sco: None
    show ?thesis
    proof (cases "insert_matches_error e")
      case (Some err)
      with sel sco assms show ?thesis
        by (auto simp add: run_matching_def Let_def split: if_splits)
    next
      case None
      with sel sco assms show ?thesis
        by (auto simp add: run_matching_def Let_def split: if_splits)
    qed
  qed
qed

lemma create_trip_tripMatches:
  "create_trip e s uid sd sc dc g = Inr (t, s1) \<Longrightarrow> tripMatches s1 = tripMatches s"
  by (auto simp add: create_trip_def Let_def split: insert_outcome.splits)

lemma POST_mirrored:
  assumes "mirrored (tripMatches s)"
  shows "mirrored (tripMatches (fst (POST e s)))"
proof (cases "parse_request e")
  case (Inl r)
  with assms show ?thesis by (simp add: POST_def)
next
  case (Inr p)
  obtain uid sd where p: "p = (uid, sd)" by (cases p)
  show ?thesis
  proof (cases "resolve_route e sd")
    case (Inl r)
    with Inr p assms show ?thesis by (simp add: POST_def)
  next
    case rr: (Inr q)
    obtain sc dc g where q: "q = (sc, dc, g)" by (cases q)
    show ?thesis
    proof (cases "create_trip e s uid sd sc dc g")
      case (Inl r)
      with Inr p rr q assms show ?thesis by (simp add: POST_def)
    next
      case ct: (Inr c)
      obtain t s1 where c: "c = (t, s1)" by (cases c)
      from ct c have tm: "tripMatches s1 = tripMatches s"
        by (simp add: create_trip_tripMatches)
      show ?thesis
      proof (cases "run_matching e s1 uid sd sc dc g t")
        case (Inl err)
        with Inr p rr q ct c assms tm show ?thesis by (simp add: POST_def)
      next
        case rm: (Inr s2)
        from run_matching_tripMatches [OF rm] assms tm have "mirrored (tripMatches s2)"
          using mirrored_insert_loop [of s1] by auto
        with Inr p rr q ct c rm show ?thesis by (simp add: POST_def)
      qed
    qed
  qed
qed

lemma provision_group_tripMatches:
  "tripMatches (fst (provision_group s1 u trip' t mt mu now)) = tripMatches s1"
  by (simp add: provision_group_def Let_def split: option.splits)

lemma accept_record_tripMatches:
  "tripMatches (fst (accept_record s u trip' a b now)) = set_accepted b a (set_accepted a b (tripMatches s))"
  by (simp add: accept_record_def accepted_store_def Let_def provision_group_tripMatches split: option.splits)

lemma accept_match_tripMatches:
  "tripMatches (fst (accept_match s u t m now)) = tripMatches s \<or>
   (\<exists>a b. tripMatches (fst (accept_match s u t m now)) = set_accepted b a (set_accepted a b (tripMatches s)))"
  by (auto simp add: accept_match_def accept_record_tripMatches split: option.splits prod.splits)

lemma accept_match_mirrored:
  "mirrored (tripMatches s) \<Longrightarrow> mirrored (tripMatches (fst (accept_match s u t m now)))"
  using accept_match_tripMatches [of s u t m now] by (auto simp add: mirrored_set_accepted)


lemma accept_row_hit: "tripId m = a \<Longrightarrow> matchedTripId m = b \<Longrightarrow> status (accept_row a b m) = ''accepted''"
  by (simp add: accept_row_def)

lemma accept_row_keeps: "status m = ''accepted'' \<Longrightarrow> status (accept_row a b m) = ''accepted''"
  by (simp add: accept_row_def)

lemma accept_row_twice:
  assumes "(tripId m = a \<and> matchedTripId m = b) \<or> (tripId m = b \<and> matchedTripId m = a)"
  shows "status (accept_row b a (accept_row a b m)) = ''accepted''"
  using assms
proof
  assume "tripId m = a \<and> matchedTripId m = b"
  then have "status (accept_row a b m) = ''accepted''" by (simp add: accept_row_hit)
  then show ?thesis by (rule accept_row_keeps)
next
  assume "tripId m = b \<and> matchedTripId m = a"
  then have "tripId (accept_row a b m) = b" "matchedTripId (accept_row a b m) = a"
    by (simp_all add: accept_row_same)
  then show ?thesis by (rule accept_row_hit)
qed

lemma between_set_accepted:
  "list_all (\<lambda>(j, m). status m = ''accepted'')
     (between a b (set_accepted b a (set_accepted a b rows)))"
proof -
  have "status m = ''accepted''"
    if "(j, m) \<in> set (between a b (set_accepted b a (set_accepted a b rows)))" for j m
  proof -
    from that obtain m0 where m: "m = accept_row b a (accept_row a b m0)"
      and "(tripId m = a \<and> matchedTripId m = b) \<or> (tripId m = b \<and> matchedTripId m = a)"
      by (auto simp add: between_def set_accepted_def)
    then have "(tripId m0 = a \<and> matchedTripId m0 = b) \<or> (tripId m0 = b \<and> matchedTripId m0 = a)"
      by (simp add: accept_row_same)
    then show ?thesis unfolding m by (rule accept_row_twice)
  qed
  then show ?thesis
    unfolding list_all_iff by blast
qed

lemma accept_match_reaches_update:
  assumes "find (\<lambda>x. trip_id x = t \<and> userId x = u) (trips s) = Some trip'"
    and "find (\<lambda>(i, m). i = mid) (tripMatches s) = Some (i, mr)"
    and "tripId mr = t"
  shows "accept_match s u t mid now = accept_record s u trip' t (matchedTripId mr) now"
  using assms by (simp add: accept_match_def)

text \<open>
  Claim C3. Every row the matching loop emits is pending, carries the loop's timestamp and
  has its mirror (ids swapped, same score, status and timestamp) in the same batch. Trip
  creation and acceptance keep the table mirrored: every row, so every pending or accepted
  one, has a row with the ids swapped and the same score. An acceptance that reaches its
  updates leaves every row between the two trips, in either direction, accepted, and
  changes no id and no score.
\<close>

theorem mirror_records_preserved:
  "(\<forall>r \<in> set (matching_loop M sd sc dc g tid ts cs []).
       status r = ''pending'' \<and> createdAt r = ts \<and>
       mirror r \<in> set (matching_loop M sd sc dc g tid ts cs []))
   \<and> (mirrored (tripMatches s) \<longrightarrow> mirrored (tripMatches (fst (POST e s))))
   \<and> (mirrored (tripMatches s) \<longrightarrow>
        mirrored (tripMatches (fst (accept_match s u t mid now))))
   \<and> (find (\<lambda>x. trip_id x = t \<and> userId x = u) (trips s) = Some trip' \<and>
        find (\<lambda>(i, m). i = mid) (tripMatches s) = Some (i, mr) \<and> tripId mr = t \<longrightarrow>
        list_all (\<lambda>(j, m). status m = ''accepted'')
          (between t (matchedTripId mr) (tripMatches (fst (accept_match s u t mid now))))
        \<and> map shape (tripMatches (fst (accept_match s u t mid now))) = map shape (tripMatches s))"
proof (intro conjI impI ballI)
  fix r assume r: "r \<in> set (matching_loop M sd sc dc g tid ts cs [])"
  from loop_rows [OF r] show "status r = ''pending''" "createdAt r = ts"
    "mirror r \<in> set (matching_loop M sd sc dc g tid ts cs [])" by simp_all
next
  assume "mirrored (tripMatches s)"
  then show "mirrored (tripMatches (fst (POST e s)))" by (rule POST_mirrored)
next
  assume "mirrored (tripMatches s)"
  then show "mirrored (tripMatches (fst (accept_match s u t mid now)))"
    by (rule accept_match_mirrored)
next
  assume a: "find (\<lambda>x. trip_id x = t \<and> userId x = u) (trips s) = Some trip' \<and>
        find (\<lambda>(i, m). i = mid) (tripMatches s) = Some (i, mr) \<and> tripId mr = t"
  then have eq: "accept_match s u t mid now = accept_record s u trip' t (matchedTripId mr) now"
    by (simp add: accept_match_reaches_update)
  show "list_all (\<lambda>(j, m). status m = ''accepted'')
          (between t (matchedTripId mr) (tripMatches (fst (accept_match s u t mid now))))"
    by (simp only: eq accept_record_tripMatches between_set_accepted)
  show "map shape (tripMatches (fst (accept_match s u t mid now))) = map shape (tripMatches s)"
    by (simp only: eq accept_record_tripMatches shape_set_accepted)
qed

lemma ex_loop:
  "matching_loop ex_runtime ex_sanitized (Some (0, 0)) (Some (0, 0)) (Some [(0, 0)]) 3 ''t2'' [ex_candidate] []
   = bidirectional_matches 3 1 210 ''t2''"
  by (simp add: ex_candidate_score) (simp add: ex_candidate_def)

lemma ex_store2_mirrored: "mirrored (tripMatches ex_store2)"
  by (simp add: mirrored_def ex_store2_def)

lemma ex_store2_finds:
  "find (\<lambda>x. trip_id x = 3 \<and> userId x = ''alice'') (trips ex_store2) = Some ex_created"
  "find (\<lambda>(i, m). i = 1) (tripMatches ex_store2) =
     Some (1, \<lparr>tripId = 3, matchedTripId = 1, matchScore = 210, status = ''pending'', createdAt = ''t2''\<rparr>)"
  by (simp_all add: ex_store2_def ex_candidate_def ex_candidate_50_def ex_created_def)

theorem mirror_records_preserved_witness:
  "mirrored (tripMatches ex_store2)
   \<and> mirrored (tripMatches (fst (POST ex_env ex_store2)))
   \<and> mirrored (tripMatches (fst (accept_match ex_store2 ''alice'' 3 1 ''t3'')))
   \<and> find (\<lambda>x. trip_id x = 3 \<and> userId x = ''alice'') (trips ex_store2) = Some ex_created
   \<and> find (\<lambda>(i, m). i = 1) (tripMatches ex_store2) =
       Some (1, \<lparr>tripId = 3, matchedTripId = 1, matchScore = 210, status = ''pending'', createdAt = ''t2''\<rparr>)
   \<and> list_all (\<lambda>(j, m). status m = ''accepted'')
        (between 3 1 (tripMatches (fst (accept_match ex_store2 ''alice'' 3 1 ''t3''))))
   \<and> \<lparr>tripId = 3, matchedTripId = 1, matchScore = 210, status = ''pending'', createdAt = ''t2''\<rparr>
        \<in> set (matching_loop ex_runtime ex_sanitized (Some (0, 0)) (Some (0, 0)) (Some [(0, 0)]) 3 ''t2'' [ex_candidate] [])
   \<and> \<lparr>tripId = 1, matchedTripId = 3, matchScore = 210, status = ''pending'', createdAt = ''t2''\<rparr>
        \<in> set (matching_loop ex_runtime ex_sanitized (Some (0, 0)) (Some (0, 0)) (Some [(0, 0)]) 3 ''t2'' [ex_candidate] [])"
proof -
  let ?r = "\<lparr>tripId = 3, matchedTripId = 1, matchScore = 210, status = ''pending'', createdAt = ''t2''\<rparr>"
  note inst = mirror_records_preserved
    [of ex_runtime ex_sanitized "Some (0, 0)" "Some (0, 0)" "Some [(0, 0)]" 3 "''t2''"
        "[ex_candidate]" ex_store2 ex_env "''alice''" 3 1 "''t3''" ex_created 1 "?r"]
  have r: "?r \<in> set (matching_loop ex_runtime ex_sanitized (Some (0, 0)) (Some (0, 0)) (Some [(0, 0)]) 3 ''t2'' [ex_candidate] [])"
    unfolding ex_loop by (simp add: bidirectional_matches_def)
  with inst have "mirror ?r \<in> set (matching_loop ex_runtime ex_sanitized (Some (0, 0)) (Some (0, 0)) (Some [(0, 0)]) 3 ''t2'' [ex_candidate] [])"
    by blast
  then have m: "\<lparr>tripId = 1, matchedTripId = 3, matchScore = 210, status = ''pending'', createdAt = ''t2''\<rparr>
        \<in> set (matching_loop ex_runtime ex_sanitized (Some (0, 0)) (Some (0, 0)) (Some [(0, 0)]) 3 ''t2'' [ex_candidate] [])"
    unfolding ex_loop by (simp add: mirror_def)
  have t: "tripId ?r = 3" "matchedTripId ?r = 1" by simp_all
  from inst ex_store2_mirrored ex_store2_finds t r m show ?thesis
    by simp
qed

lemma ex_accept_value:
  "tripMatches (fst (accept_match ex_store2 ''alice'' 3 1 ''t3'')) =
     [(1, \<lparr>tripId = 3, matchedTripId = 1, matchScore = 210, status = ''accepted'', createdAt = ''t2''\<rparr>),
      (2, \<lparr>tripId = 1, matchedTripId = 3, matchScore = 210, status = ''accepted'', createdAt = ''t2''\<rparr>)]"
  by (simp add: accept_match_def accept_record_def accepted_store_def provision_group_def set_accepted_def accept_row_def Let_def ex_store2_def ex_candidate_def ex_candidate_50_def ex_created_def)

section \<open>Properties of the trip creation handler\<close>

lemma run_matching_trips:
  assumes "run_matching e s uid sd sc dc g t = Inr s2"
  shows "trips s2 = trips s"
  using run_matching_tripMatches [OF assms] by (auto simp add: insert_matches_def)

lemma create_trip_trips:
  assumes "create_trip e s uid sd sc dc g = Inr (t, s1)"
  shows "trips s1 = trips s @ [t]" and "userId t = uid" and "routeGeometry t = g"
    and "insert_trip_outcome e = RowReturned"
  using assms by (auto simp add: create_trip_def Let_def split: insert_outcome.splits)

lemma create_trip_returned:
  assumes "insert_trip_outcome e = RowReturned"
  shows "\<exists>t s1. create_trip e s uid sd sc dc g = Inr (t, s1)"
  using assms by (simp add: create_trip_def Let_def)

lemma POST_after_create:
  assumes "parse_request e = Inr (uid, sd)" and "resolve_route e sd = Inr (sc, dc, g)"
    and "create_trip e s uid sd sc dc g = Inr (t, s1)"
  shows "snd (POST e s) = Response 201 (TripBody t)"
    and "trips (fst (POST e s)) = trips s @ [t]"
    and "run_matching e s1 uid sd sc dc g t = Inl err \<Longrightarrow> fst (POST e s) = s1"
proof -
  show "snd (POST e s) = Response 201 (TripBody t)"
    using assms by (simp add: POST_def split: sum.splits)
  show "trips (fst (POST e s)) = trips s @ [t]"
  proof (cases "run_matching e s1 uid sd sc dc g t")
    case (Inl err)
    with assms show ?thesis by (simp add: POST_def create_trip_trips(1))
  next
    case (Inr s2)
    with assms run_matching_trips [OF Inr] show ?thesis
      by (simp add: POST_def create_trip_trips(1))
  qed
  show "run_matching e s1 uid sd sc dc g t = Inl err \<Longrightarrow> fst (POST e s) = s1"
    using assms by (simp add: POST_def)
qed

lemma bind_result_Inr:
  "bind_result m f = Inr y \<Longrightarrow> \<exists>x. m = Inr x \<and> f x = Inr y"
  by (cases m) (simp_all add: bind_result_def)

lemma parse_request_session:
  assumes "parse_request e = Inr (uid, sd)"
  shows "session e = Some uid"
proof (cases "session e")
  case None
  with assms show ?thesis by (simp add: parse_request_def)
next
  case (Some u)
  with assms have "u = uid"
    by (auto simp add: parse_request_def split: sum.splits if_splits dest!: bind_result_Inr)
  with Some show ?thesis by simp
qed

lemma POST_trips:
  "trips (fst (POST e s)) = trips s \<or>
   (\<exists>t. trips (fst (POST e s)) = trips s @ [t] \<and> session e = Some (userId t) \<and>
        snd (POST e s) = Response 201 (TripBody t))"
proof (cases "parse_request e")
  case (Inl r)
  then show ?thesis by (simp add: POST_def)
next
  case (Inr p)
  obtain uid sd where p: "p = (uid, sd)" by (cases p)
  show ?thesis
  proof (cases "resolve_route e sd")
    case (Inl r)
    with Inr p show ?thesis by (simp add: POST_def)
  next
    case rr: (Inr q)
    obtain sc dc g where q: "q = (sc, dc, g)" by (cases q)
    show ?thesis
    proof (cases "create_trip e s uid sd sc dc g")
      case (Inl r)
      with Inr p rr q show ?thesis by (simp add: POST_def)
    next
      case ct: (Inr c)
      obtain t s1 where c: "c = (t, s1)" by (cases c)
      note facts = Inr [unfolded p] rr [unfolded q] ct [unfolded c]
      from POST_after_create(1,2) [OF facts] create_trip_trips(2) [OF facts(3)]
        parse_request_session [OF facts(1)]
      show ?thesis by simp
    qed
  qed
qed

lemma parse_request_userId:
  assumes "session e = Some uid" and "request_json e = Inr (JObj kvs)"
    and "''userId'' \<in> set (map fst kvs) \<or> ''user_id'' \<in> set (map fst kvs)"
  shows "parse_request e =
           Inl (Response 400 (ErrorBody ''User ID cannot be provided in request body''
                                (Some ''USER_ID_NOT_ALLOWED'')))"
  using assms by (auto simp add: parse_request_def)

lemma resolve_route_geocoding:
  assumes "geocode e (s_source sd) = None \<or> geocode e (s_destination sd) = None"
  shows "\<exists>msg. resolve_route e sd = Inl (Response 400 (ErrorBody msg (Some ''GEOCODING_FAILED'')))"
  using assms by (auto simp add: resolve_route_def Let_def split: option.splits)

lemma resolve_route_no_route:
  assumes "geocode e (s_source sd) = Some sc" and "geocode e (s_destination sd) = Some dc"
    and "calculateRouteGeometry e sc dc (s_transportMode sd) = None"
  shows "resolve_route e sd = Inr (sc, dc, None)"
  using assms by (simp add: resolve_route_def Let_def)


lemma fault_fields_parse:
  "parse_request (e\<lparr>select_trips_error := f1, scoring_error := f2, insert_matches_error := f3\<rparr>)
   = parse_request e"
  by (simp add: parse_request_def cong: option.case_cong sum.case_cong if_cong)

lemma fault_fields_resolve:
  "resolve_route (e\<lparr>select_trips_error := f1, scoring_error := f2, insert_matches_error := f3\<rparr>) sd
   = resolve_route e sd"
  by (simp add: resolve_route_def cong: option.case_cong prod.case_cong)

lemma fault_fields_create:
  "create_trip (e\<lparr>select_trips_error := f1, scoring_error := f2, insert_matches_error := f3\<rparr>)
     s uid sd sc dc g
   = create_trip e s uid sd sc dc g"
  by (simp add: create_trip_def cong: insert_outcome.case_cong)

lemma POST_fault_independent:
  "snd (POST (e\<lparr>select_trips_error := f1, scoring_error := f2, insert_matches_error := f3\<rparr>) s)
     = snd (POST e s)
   \<and> trips (fst (POST (e\<lparr>select_trips_error := f1, scoring_error := f2,
                          insert_matches_error := f3\<rparr>) s))
     = trips (fst (POST e s))"
proof -
  let ?e = "e\<lparr>select_trips_error := f1, scoring_error := f2, insert_matches_error := f3\<rparr>"
  show ?thesis
  proof (cases "parse_request e")
    case (Inl r)
    then show ?thesis by (simp add: POST_def fault_fields_parse)
  next
    case (Inr p)
    obtain uid sd where p: "p = (uid, sd)" by (cases p)
    show ?thesis
    proof (cases "resolve_route e sd")
      case (Inl r)
      with Inr p show ?thesis by (simp add: POST_def fault_fields_parse fault_fields_resolve)
    next
      case rr: (Inr q)
      obtain sc dc g where q: "q = (sc, dc, g)" by (cases q)
      show ?thesis
      proof (cases "create_trip e s uid sd sc dc g")
        case (Inl r)
        with Inr p rr q show ?thesis
          by (simp add: POST_def fault_fields_parse fault_fields_resolve fault_fields_create)
      next
        case ct: (Inr c)
        obtain t s1 where c: "c = (t, s1)" by (cases c)
        note facts = Inr [unfolded p] rr [unfolded q] ct [unfolded c]
        have facts': "parse_request ?e = Inr (uid, sd)" "resolve_route ?e sd = Inr (sc, dc, g)"
          "create_trip ?e s uid sd sc dc g = Inr (t, s1)"
          using facts by (simp_all only: fault_fields_parse fault_fields_resolve fault_fields_create)
        from POST_after_create(1,2) [OF facts] POST_after_create(1,2) [OF facts']
        show ?thesis by simp
      qed
    qed
  qed
qed

lemma run_matching_faults:
  "select_trips_error e = Some err \<Longrightarrow> run_matching e s1 uid sd sc dc g t = Inl err"
  "select_trips_error e = None \<Longrightarrow> scoring_error e = Some err \<Longrightarrow>
     run_matching e s1 uid sd sc dc g t = Inl err"
  "select_trips_error e = None \<Longrightarrow> scoring_error e = None \<Longrightarrow>
   insert_matches_error e = Some err \<Longrightarrow>
   matching_loop (runtime e) sd (Some sc) (Some dc) g (trip_id t) (matchTimestamp e)
     (potentialMatches_of s1 uid) [] \<noteq> [] \<Longrightarrow>
     run_matching e s1 uid sd sc dc g t = Inl err"
  by (simp_all add: run_matching_def Let_def)

text \<open>
  Claim C4. Once the trip row is inserted, the handler answers 201 with the created trip
  and the trip stays in the store, whatever the matching pass does: an error thrown when
  the other users' trips are loaded, while the candidates are scored or when the batch of
  matches is inserted leaves the store as it was after the insertion of the trip, and
  the response and the trips of the store do not depend on those errors.
\<close>

theorem matching_errors_never_change_response:
  "(parse_request e = Inr (uid, sd) \<and> resolve_route e sd = Inr (sc, dc, g) \<and>
    create_trip e s uid sd sc dc g = Inr (t, s1) \<longrightarrow>
      snd (POST e s) = Response 201 (TripBody t) \<and>
      trips (fst (POST e s)) = trips s @ [t] \<and>
      (run_matching e s1 uid sd sc dc g t = Inl err \<longrightarrow> fst (POST e s) = s1))
   \<and> snd (POST (e\<lparr>select_trips_error := f1, scoring_error := f2,
                    insert_matches_error := f3\<rparr>) s) = snd (POST e s)
   \<and> trips (fst (POST (e\<lparr>select_trips_error := f1, scoring_error := f2,
                          insert_matches_error := f3\<rparr>) s)) = trips (fst (POST e s))
   \<and> (select_trips_error e = Some err \<longrightarrow> run_matching e s1 uid sd sc dc g t = Inl err)
   \<and> (select_trips_error e = None \<and> scoring_error e = Some err \<longrightarrow>
        run_matching e s1 uid sd sc dc g t = Inl err)
   \<and> (select_trips_error e = None \<and> scoring_error e = None \<and>
        insert_matches_error e = Some err \<and>
        matching_loop (runtime e) sd (Some sc) (Some dc) g (trip_id t) (matchTimestamp e)
          (potentialMatches_of s1 uid) [] \<noteq> [] \<longrightarrow>
        run_matching e s1 uid sd sc dc g t = Inl err)"
proof (intro conjI impI)
  assume a: "parse_request e = Inr (uid, sd) \<and> resolve_route e sd = Inr (sc, dc, g) \<and>
    create_trip e s uid sd sc dc g = Inr (t, s1)"
  then have facts: "parse_request e = Inr (uid, sd)" "resolve_route e sd = Inr (sc, dc, g)"
    "create_trip e s uid sd sc dc g = Inr (t, s1)" by simp_all
  show "snd (POST e s) = Response 201 (TripBody t)"
    by (rule POST_after_create(1) [OF facts])
  show "trips (fst (POST e s)) = trips s @ [t]"
    by (rule POST_after_create(2) [OF facts])
  show "fst (POST e s) = s1" if "run_matching e s1 uid sd sc dc g t = Inl err"
    using that by (rule POST_after_create(3) [OF facts])
next
  show "snd (POST (e\<lparr>select_trips_error := f1, scoring_error := f2,
                    insert_matches_error := f3\<rparr>) s) = snd (POST e s)"
    by (simp add: POST_fault_independent)
  show "trips (fst (POST (e\<lparr>select_trips_error := f1, scoring_error := f2,
                          insert_matches_error := f3\<rparr>) s)) = trips (fst (POST e s))"
    by (simp add: POST_fault_independent)
next
  assume "select_trips_error e = Some err"
  then show "run_matching e s1 uid sd sc dc g t = Inl err"
    by (rule run_matching_faults(1))
next
  assume "select_trips_error e = None \<and> scoring_error e = Some err"
  then show "run_matching e s1 uid sd sc dc g t = Inl err"
    by (simp add: run_matching_faults(2))
next
  assume "select_trips_error e = None \<and> scoring_error e = None \<and>
        insert_matches_error e = Some err \<and>
        matching_loop (runtime e) sd (Some sc) (Some dc) g (trip_id t) (matchTimestamp e)
          (potentialMatches_of s1 uid) [] \<noteq> []"
  then show "run_matching e s1 uid sd sc dc g t = Inl err"
    by (simp add: run_matching_faults(3))
qed

lemma ex_parse: "parse_request ex_env = Inr (''alice'', ex_sanitized)"
  by (simp add: parse_request_def ex_env_def ex_body_def sanitize_def bind_result_def
        trim_field_def ex_runtime_def ascii_trim_def ascii_space_def ex_sanitized_def)

lemma ex_resolve: "resolve_route ex_env ex_sanitized = Inr ((0, 0), (0, 0), Some [(0, 0)])"
  by (simp add: resolve_route_def ex_env_def)

lemma ex_create:
  "create_trip ex_env ex_store0 ''alice'' ex_sanitized (0, 0) (0, 0) (Some [(0, 0)])
   = Inr (ex_created, ex_store1)"
  by (simp add: create_trip_def Let_def ex_env_def ex_store0_def ex_store1_def ex_created_def
        ex_sanitized_def)

theorem matching_errors_never_change_response_witness:
  "parse_request (ex_env\<lparr>select_trips_error := Some (StoreError ''database is locked'')\<rparr>)
     = Inr (''alice'', ex_sanitized)
   \<and> select_trips_error (ex_env\<lparr>select_trips_error := Some (StoreError ''database is locked'')\<rparr>)
     = Some (StoreError ''database is locked'')
   \<and> run_matching (ex_env\<lparr>select_trips_error := Some (StoreError ''database is locked'')\<rparr>)
        ex_store1 ''alice'' ex_sanitized (0, 0) (0, 0) (Some [(0, 0)]) ex_created
     = Inl (StoreError ''database is locked'')
   \<and> POST (ex_env\<lparr>select_trips_error := Some (StoreError ''database is locked'')\<rparr>) ex_store0
     = (ex_store1, Response 201 (TripBody ex_created))"
proof -
  let ?err = "StoreError ''database is locked''"
  let ?e = "ex_env\<lparr>select_trips_error := Some ?err\<rparr>"
  have p: "parse_request ?e = Inr (''alice'', ex_sanitized)"
    using ex_parse by (simp add: parse_request_def cong: option.case_cong sum.case_cong if_cong)
  have r: "resolve_route ?e ex_sanitized = Inr ((0, 0), (0, 0), Some [(0, 0)])"
    using ex_resolve by (simp add: resolve_route_def cong: option.case_cong prod.case_cong)
  have c: "create_trip ?e ex_store0 ''alice'' ex_sanitized (0, 0) (0, 0) (Some [(0, 0)])
           = Inr (ex_created, ex_store1)"
    using ex_create by (simp add: create_trip_def cong: insert_outcome.case_cong)
  have f: "select_trips_error ?e = Some ?err" by simp
  note inst = matching_errors_never_change_response
    [of "?e" "''alice''" ex_sanitized "(0, 0)" "(0, 0)" "Some [(0, 0)]" ex_store0 ex_created
        ex_store1 "?err"]
  from inst p r c f have
    "run_matching ?e ex_store1 ''alice'' ex_sanitized (0, 0) (0, 0) (Some [(0, 0)]) ex_created
       = Inl ?err"
    "snd (POST ?e ex_store0) = Response 201 (TripBody ex_created)"
    "fst (POST ?e ex_store0) = ex_store1"
    by blast+
  with p f show ?thesis by (simp add: prod_eq_iff)
qed

text \<open>
  Claim C7. For a request that has passed authentication and validation: when the geocoding
  of the source or of the destination gives nothing, the answer is 400 with the code
  GEOCODING_FAILED and the store is unchanged; when both succeed and the routing gives no
  route, and the store returns the inserted row, the answer is 201 with the created trip,
  whose route geometry is null, and the trip is in the store.
\<close>

theorem geocoding_failure_and_missing_route:
  "(parse_request e = Inr (uid, sd) \<and>
    (geocode e (s_source sd) = None \<or> geocode e (s_destination sd) = None) \<longrightarrow>
      (\<exists>msg. POST e s = (s, Response 400 (ErrorBody msg (Some ''GEOCODING_FAILED'')))))
   \<and> (parse_request e = Inr (uid, sd) \<and>
       geocode e (s_source sd) = Some sc \<and> geocode e (s_destination sd) = Some dc \<and>
       calculateRouteGeometry e sc dc (s_transportMode sd) = None \<and>
       insert_trip_outcome e = RowReturned \<longrightarrow>
      (\<exists>t. snd (POST e s) = Response 201 (TripBody t) \<and> routeGeometry t = None \<and>
           userId t = uid \<and> trips (fst (POST e s)) = trips s @ [t]))"
proof (intro conjI impI)
  assume a: "parse_request e = Inr (uid, sd) \<and>
    (geocode e (s_source sd) = None \<or> geocode e (s_destination sd) = None)"
  then obtain msg where
    "resolve_route e sd = Inl (Response 400 (ErrorBody msg (Some ''GEOCODING_FAILED'')))"
    using resolve_route_geocoding by blast
  with a have "POST e s = (s, Response 400 (ErrorBody msg (Some ''GEOCODING_FAILED'')))"
    by (simp add: POST_def)
  then show "\<exists>msg. POST e s = (s, Response 400 (ErrorBody msg (Some ''GEOCODING_FAILED'')))"
    by blast
next
  assume a: "parse_request e = Inr (uid, sd) \<and>
       geocode e (s_source sd) = Some sc \<and> geocode e (s_destination sd) = Some dc \<and>
       calculateRouteGeometry e sc dc (s_transportMode sd) = None \<and>
       insert_trip_outcome e = RowReturned"
  then have p: "parse_request e = Inr (uid, sd)"
    and r: "resolve_route e sd = Inr (sc, dc, None)"
    by (simp_all add: resolve_route_no_route)
  from a obtain t s1 where c: "create_trip e s uid sd sc dc None = Inr (t, s1)"
    using create_trip_returned by blast
  from POST_after_create(1,2) [OF p r c] create_trip_trips(2,3) [OF c]
  show "\<exists>t. snd (POST e s) = Response 201 (TripBody t) \<and> routeGeometry t = None \<and>
           userId t = uid \<and> trips (fst (POST e s)) = trips s @ [t]"
    by blast
qed

theorem geocoding_failure_and_missing_route_witness:
  "parse_request (ex_env\<lparr>geocode := (\<lambda>location. None)\<rparr>) = Inr (''alice'', ex_sanitized)
   \<and> geocode (ex_env\<lparr>geocode := (\<lambda>location. None)\<rparr>) (s_source ex_sanitized) = None
   \<and> (\<exists>msg. POST (ex_env\<lparr>geocode := (\<lambda>location. None)\<rparr>) ex_store0 =
              (ex_store0, Response 400 (ErrorBody msg (Some ''GEOCODING_FAILED''))))
   \<and> parse_request (ex_env\<lparr>calculateRouteGeometry := (\<lambda>start end' mode. None)\<rparr>)
       = Inr (''alice'', ex_sanitized)
   \<and> geocode (ex_env\<lparr>calculateRouteGeometry := (\<lambda>start end' mode. None)\<rparr>)
         (s_source ex_sanitized) = Some (0, 0)
   \<and> geocode (ex_env\<lparr>calculateRouteGeometry := (\<lambda>start end' mode. None)\<rparr>)
         (s_destination ex_sanitized) = Some (0, 0)
   \<and> calculateRouteGeometry (ex_env\<lparr>calculateRouteGeometry := (\<lambda>start end' mode. None)\<rparr>)
         (0, 0) (0, 0) (s_transportMode ex_sanitized) = None
   \<and> insert_trip_outcome (ex_env\<lparr>calculateRouteGeometry := (\<lambda>start end' mode. None)\<rparr>)
       = RowReturned
   \<and> (\<exists>t. snd (POST (ex_env\<lparr>calculateRouteGeometry := (\<lambda>start end' mode. None)\<rparr>) ex_store0)
              = Response 201 (TripBody t)
          \<and> routeGeometry t = None \<and> userId t = ''alice''
          \<and> trips (fst (POST (ex_env\<lparr>calculateRouteGeometry := (\<lambda>start end' mode. None)\<rparr>)
                            ex_store0)) = trips ex_store0 @ [t])"
proof -
  let ?e1 = "ex_env\<lparr>geocode := (\<lambda>location. None)\<rparr>"
  let ?e2 = "ex_env\<lparr>calculateRouteGeometry := (\<lambda>start end' mode. None)\<rparr>"
  have p1: "parse_request ?e1 = Inr (''alice'', ex_sanitized)"
    using ex_parse by (simp add: parse_request_def cong: option.case_cong sum.case_cong if_cong)
  have p2: "parse_request ?e2 = Inr (''alice'', ex_sanitized)"
    using ex_parse by (simp add: parse_request_def cong: option.case_cong sum.case_cong if_cong)
  have g1: "geocode ?e1 (s_source ex_sanitized) = None" by simp
  have g2: "geocode ?e2 (s_source ex_sanitized) = Some (0, 0)"
           "geocode ?e2 (s_destination ex_sanitized) = Some (0, 0)"
           "calculateRouteGeometry ?e2 (0, 0) (0, 0) (s_transportMode ex_sanitized) = None"
           "insert_trip_outcome ?e2 = RowReturned"
    by (simp_all add: ex_env_def)
  note fail = geocoding_failure_and_missing_route
    [of "?e1" "''alice''" ex_sanitized ex_store0 "(0, 0)" "(0, 0)"]
  note degraded = geocoding_failure_and_missing_route
    [of "?e2" "''alice''" ex_sanitized ex_store0 "(0, 0)" "(0, 0)"]
  from fail p1 g1 have
    "\<exists>msg. POST ?e1 ex_store0 = (ex_store0, Response 400 (ErrorBody msg (Some ''GEOCODING_FAILED'')))"
    by blast
  moreover from degraded p2 g2 have
    "\<exists>t. snd (POST ?e2 ex_store0) = Response 201 (TripBody t) \<and> routeGeometry t = None \<and>
         userId t = ''alice'' \<and> trips (fst (POST ?e2 ex_store0)) = trips ex_store0 @ [t]"
    by blast
  ultimately show ?thesis using p1 p2 g1 g2 by blast
qed

text \<open>
  Claim C10. An authenticated request whose body is an object with a key \<open>userId\<close> or
  \<open>user_id\<close> is answered 400 with the code USER_ID_NOT_ALLOWED and leaves the store
  unchanged. The handler adds at most one trip, and the owner of a trip it adds is the
  user of the session, whatever the body is.
\<close>

theorem body_cannot_set_owner:
  "(session e = Some uid \<and> request_json e = Inr (JObj kvs) \<and>
    (''userId'' \<in> set (map fst kvs) \<or> ''user_id'' \<in> set (map fst kvs)) \<longrightarrow>
      POST e s = (s, Response 400 (ErrorBody ''User ID cannot be provided in request body''
                                     (Some ''USER_ID_NOT_ALLOWED''))))
   \<and> (trips (fst (POST e s)) = trips s \<or>
       (\<exists>t. trips (fst (POST e s)) = trips s @ [t] \<and> session e = Some (userId t) \<and>
            snd (POST e s) = Response 201 (TripBody t)))
   \<and> (trips (fst (POST (e\<lparr>request_json := b\<rparr>) s)) = trips s \<or>
       (\<exists>t. trips (fst (POST (e\<lparr>request_json := b\<rparr>) s)) = trips s @ [t] \<and>
            session e = Some (userId t)))"
proof (intro conjI impI)
  assume "session e = Some uid \<and> request_json e = Inr (JObj kvs) \<and>
    (''userId'' \<in> set (map fst kvs) \<or> ''user_id'' \<in> set (map fst kvs))"
  then have "parse_request e =
           Inl (Response 400 (ErrorBody ''User ID cannot be provided in request body''
                                (Some ''USER_ID_NOT_ALLOWED'')))"
    using parse_request_userId by blast
  then show "POST e s = (s, Response 400 (ErrorBody ''User ID cannot be provided in request body''
                                     (Some ''USER_ID_NOT_ALLOWED'')))"
    by (simp add: POST_def)
next
  show "trips (fst (POST e s)) = trips s \<or>
       (\<exists>t. trips (fst (POST e s)) = trips s @ [t] \<and> session e = Some (userId t) \<and>
            snd (POST e s) = Response 201 (TripBody t))"
    by (rule POST_trips)
next
  show "trips (fst (POST (e\<lparr>request_json := b\<rparr>) s)) = trips s \<or>
       (\<exists>t. trips (fst (POST (e\<lparr>request_json := b\<rparr>) s)) = trips s @ [t] \<and>
            session e = Some (userId t))"
    using POST_trips [of "e\<lparr>request_json := b\<rparr>" s] by auto
qed

theorem body_cannot_set_owner_witness:
  "session (ex_env\<lparr>request_json := Inr ex_body_with_userId\<rparr>) = Some ''alice''
   \<and> in_operator ''userId'' ex_body_with_userId = Inr True
   \<and> POST (ex_env\<lparr>request_json := Inr ex_body_with_userId\<rparr>) ex_store0 =
       (ex_store0, Response 400 (ErrorBody ''User ID cannot be provided in request body''
                                   (Some ''USER_ID_NOT_ALLOWED'')))"
proof -
  let ?e = "ex_env\<lparr>request_json := Inr ex_body_with_userId\<rparr>"
  have s: "session ?e = Some ''alice''" by (simp add: ex_env_def)
  have b: "request_json ?e = Inr (JObj [(''source'', JStr ''Lyon''), (''destination'', JStr ''Paris''),
           (''travelDate'', JStr ''2025-06-01''), (''travelTime'', JStr ''09:00''),
           (''transportMode'', JStr ''car''), (''optimizationMode'', JStr ''fastest''),
           (''userId'', JStr ''bob'')])"
    by (simp add: ex_body_with_userId_def)
  have k: "in_operator ''userId'' ex_body_with_userId = Inr True"
    by (simp add: ex_body_with_userId_def)
  have k': "''userId'' \<in> set (map fst [(''source'', JStr ''Lyon''), (''destination'', JStr ''Paris''),
           (''travelDate'', JStr ''2025-06-01''), (''travelTime'', JStr ''09:00''),
           (''transportMode'', JStr ''car''), (''optimizationMode'', JStr ''fastest''),
           (''userId'', JStr ''bob'')])"
    by simp
  from body_cannot_set_owner [of "?e" "''alice''" _ ex_store0] s b k'
  have "POST ?e ex_store0 =
       (ex_store0, Response 400 (ErrorBody ''User ID cannot be provided in request body''
                                   (Some ''USER_ID_NOT_ALLOWED'')))"
    by blast
  with s k show ?thesis by simp
qed

section \<open>Route cost\<close>

lemma estimateCost_nonzero_rate:
  assumes "mode \<noteq> ''cycling''" and "mode \<noteq> ''walking''"
  shows "estimateCost distanceKm mode = distanceKm * ratePerKm mode"
  using assms by (simp add: estimateCost_def costPerKm_def ratePerKm_def)

lemma main_route_cost_nonzero_rate:
  assumes "mode \<noteq> ''cycling''" and "mode \<noteq> ''walking''"
  shows "main_route_cost d mode opt =
           (if opt = ''cheapest'' then (d / 1000) * ratePerKm mode * 0.8
            else (d / 1000) * ratePerKm mode)"
  using assms by (simp add: main_route_cost_def estimateCost_nonzero_rate)

text \<open>
  Claim C9, at the modes whose rate is 0. The table of the source gives cycling and walking
  the rate 0, and \<open>costPerKm[mode] || 0.3\<close> replaces that 0 by 0.3: a main route of
  1000 m costs 0.3 by bicycle and 0.24 on foot with the preference \<open>cheapest\<close>, where
  the rates of the specification give 0. For every other mode the cost is the distance in
  km times the rate, times 0.8 under \<open>cheapest\<close> (\<open>main_route_cost_nonzero_rate\<close>).
\<close>

theorem main_route_cost_cycling:
  "main_route_cost 1000 ''cycling'' ''shortest'' = 3 / 10
   \<and> main_route_cost 1000 ''walking'' ''cheapest'' = 24 / 100
   \<and> (1000 / 1000) * ratePerKm ''cycling'' = 0
   \<and> (1000 / 1000) * ratePerKm ''walking'' * 0.8 = 0"
  by (simp add: main_route_cost_def estimateCost_def costPerKm_def ratePerKm_def)

section \<open>Repeated insertion of matches\<close>

lemma pairs_of_insert_matches:
  "map snd (tripMatches (insert_matches s rows)) = map snd (tripMatches s) @ rows"
  by (simp add: insert_matches_def map_snd_number_rows)

lemma loop_pairs_distinct:
  assumes "distinct (map trip_id cs)" and "tid \<notin> trip_id ` set cs"
  shows "distinct (map (\<lambda>r. (tripId r, matchedTripId r))
           (concat (map (\<lambda>c. if P c then bidirectional_matches tid (trip_id c) (f c) ts else []) cs)))"
  using assms
proof (induction cs)
  case Nil
  show ?case by simp
next
  case (Cons a cs)
  let ?rest = "concat (map (\<lambda>c. if P c then bidirectional_matches tid (trip_id c) (f c) ts else []) cs)"
  have ih: "distinct (map (\<lambda>r. (tripId r, matchedTripId r)) ?rest)"
    using Cons by simp
  have na: "trip_id a \<notin> trip_id ` set cs" "trip_id a \<noteq> tid"
    using Cons.prems by auto
  have no: "records_for (trip_id a) ?rest = []"
    using na by (rule records_for_other)
  have out: "(tid, trip_id a) \<notin> set (map (\<lambda>r. (tripId r, matchedTripId r)) ?rest)"
            "(trip_id a, tid) \<notin> set (map (\<lambda>r. (tripId r, matchedTripId r)) ?rest)"
  proof -
    from no have "\<forall>r \<in> set ?rest. \<not> (tripId r = trip_id a \<or> matchedTripId r = trip_id a)"
      unfolding records_for_def filter_empty_conv .
    then show "(tid, trip_id a) \<notin> set (map (\<lambda>r. (tripId r, matchedTripId r)) ?rest)"
      and "(trip_id a, tid) \<notin> set (map (\<lambda>r. (tripId r, matchedTripId r)) ?rest)"
      by force+
  qed
  show ?case
  proof (cases "P a")
    case True
    with ih out na(2) show ?thesis
      by (simp add: bidirectional_matches_def)
  next
    case False
    with ih show ?thesis by simp
  qed
qed

text \<open>
  Claim C6, as the code has it. The insertion of a batch appends every row it is given:
  done twice with the same rows, it leaves each of them twice in the table. One matching
  pass over candidates with distinct ids, none of them the id of the created trip, emits
  no pair of trip ids twice.
\<close>

theorem insert_matches_appends:
  "map snd (tripMatches (insert_matches (insert_matches s rows) rows))
     = map snd (tripMatches s) @ rows @ rows
   \<and> (distinct (map trip_id cs) \<and> tid \<notin> trip_id ` set cs \<longrightarrow>
        distinct (map (\<lambda>r. (tripId r, matchedTripId r)) (matching_loop M sd sc dc g tid ts cs [])))"
proof (intro conjI impI)
  show "map snd (tripMatches (insert_matches (insert_matches s rows) rows))
     = map snd (tripMatches s) @ rows @ rows"
    by (simp add: pairs_of_insert_matches)
next
  assume "distinct (map trip_id cs) \<and> tid \<notin> trip_id ` set cs"
  then have "distinct (map trip_id cs)" and "tid \<notin> trip_id ` set cs" by simp_all
  then show "distinct (map (\<lambda>r. (tripId r, matchedTripId r)) (matching_loop M sd sc dc g tid ts cs []))"
    unfolding matching_loop_concat append_Nil by (rule loop_pairs_distinct)
qed

text \<open>
  Claim C6 as stated fails: after the same batch of two rows is inserted twice, the table
  holds the pairs (3, 1) and (1, 3) twice each.
\<close>

theorem insert_matches_twice_counterexample:
  "pairs_of (tripMatches (insert_matches (insert_matches ex_store1
             (bidirectional_matches 3 1 210 ''t2'')) (bidirectional_matches 3 1 210 ''t2'')))
     = [(3, 1), (1, 3), (3, 1), (1, 3)]
   \<and> \<not> distinct (pairs_of (tripMatches (insert_matches (insert_matches ex_store1
             (bidirectional_matches 3 1 210 ''t2'')) (bidirectional_matches 3 1 210 ''t2''))))"
  by (simp add: insert_matches_def bidirectional_matches_def pairs_of_def ex_store1_def)

theorem insert_matches_appends_witness:
  "distinct (map trip_id [ex_candidate, ex_candidate_50]) \<and>
   3 \<notin> trip_id ` set [ex_candidate, ex_candidate_50] \<and>
   distinct (map (\<lambda>r. (tripId r, matchedTripId r))
     (matching_loop ex_runtime ex_sanitized (Some (0, 0)) (Some (0, 0)) (Some [(0, 0)]) 3 ''t2''
        [ex_candidate, ex_candidate_50] []))"
proof -
  have d: "distinct (map trip_id [ex_candidate, ex_candidate_50])"
          "3 \<notin> trip_id ` set [ex_candidate, ex_candidate_50]"
    by (simp_all add: ex_candidate_def ex_candidate_50_def)
  with insert_matches_appends [of ex_store1 "[]" "[ex_candidate, ex_candidate_50]" 3
         ex_runtime ex_sanitized "Some (0, 0)" "Some (0, 0)" "Some [(0, 0)]" "''t2''"]
  show ?thesis by blast
qed

section \<open>Groups of accepted matches\<close>

lemma accepted_store_fields:
  "trips (accepted_store s a b) = trips s"
  "groups (accepted_store s a b) = groups s"
  "groupMembers (accepted_store s a b) = groupMembers s"
  "groups_seq (accepted_store s a b) = groups_seq s"
  "groupMembers_seq (accepted_store s a b) = groupMembers_seq s"
  "tripMatches (accepted_store s a b) = set_accepted b a (set_accepted a b (tripMatches s))"
  by (simp_all add: accepted_store_def)

lemma accept_match_provision:
  assumes "find (\<lambda>x. trip_id x = t \<and> userId x = u) (trips s) = Some trip'"
    and "find (\<lambda>(i, m). i = mid) (tripMatches s) = Some (i, mr)"
    and "tripId mr = t"
    and "find (\<lambda>x. trip_id x = matchedTripId mr) (trips s) = Some mt"
  shows "accept_match s u t mid now =
           provision_group (accepted_store s t (matchedTripId mr)) u trip' t (matchedTripId mr)
             (userId mt) now"
  using assms by (simp add: accept_match_def accept_record_def Let_def accepted_store_fields)

lemma is_member_find:
  "is_member gid uid rows = (find (\<lambda>m. groupId m = gid \<and> member_userId m = uid) rows \<noteq> None)"
  by (auto simp add: is_member_def find_None_iff list_ex_iff)

lemma provision_group_new:
  assumes "group_for_trips t mt (groups s1) = None"
  shows "\<exists>g a m. fst (provision_group s1 u trip' t mt mu now) =
             s1\<lparr>groups := groups s1 @ [g], groups_seq := groups_seq s1 + 1,
                groupMembers := groupMembers s1 @ [a, m],
                groupMembers_seq := groupMembers_seq s1 + 1 + 1\<rparr>
           \<and> snd (provision_group s1 u trip' t mt mu now) =
               AcceptResponse 201 (GroupBody g (members_of (group_id g) (groupMembers s1 @ [a, m])))
           \<and> group_id g = groups_seq s1 + 1 \<and> group_tripId g = Some t \<and> createdBy g = u
           \<and> groupId a = group_id g \<and> member_userId a = u \<and> role a = ''admin''
           \<and> groupId m = group_id g \<and> member_userId m = mu \<and> role m = ''member''"
proof -
  let ?g = "\<lparr>group_id = groups_seq s1 + 1,
             group_name = ''Trip to '' @ destination trip' @ '' - '' @ travelDate trip',
             group_tripId = Some t, createdBy = u, group_status = ''active'',
             group_createdAt = now, group_updatedAt = now\<rparr>"
  let ?a = "\<lparr>member_id = groupMembers_seq s1 + 1, groupId = groups_seq s1 + 1,
             member_userId = u, role = ''admin'', joinedAt = now\<rparr>"
  let ?m = "\<lparr>member_id = groupMembers_seq s1 + 1 + 1, groupId = groups_seq s1 + 1,
             member_userId = mu, role = ''member'', joinedAt = now\<rparr>"
  from assms have none: "find (\<lambda>g. group_tripId g = Some t \<or> group_tripId g = Some mt) (groups s1) = None"
    by (simp add: group_for_trips_def)
  have "fst (provision_group s1 u trip' t mt mu now) =
             s1\<lparr>groups := groups s1 @ [?g], groups_seq := groups_seq s1 + 1,
                groupMembers := groupMembers s1 @ [?a, ?m],
                groupMembers_seq := groupMembers_seq s1 + 1 + 1\<rparr>"
    by (simp add: provision_group_def none Let_def)
  moreover have "snd (provision_group s1 u trip' t mt mu now) =
               AcceptResponse 201 (GroupBody ?g (members_of (group_id ?g) (groupMembers s1 @ [?a, ?m])))"
    by (simp add: provision_group_def none Let_def)
  ultimately show ?thesis
    by (intro exI [of _ ?g] exI [of _ ?a] exI [of _ ?m]) simp
qed

lemma provision_group_existing:
  assumes "group_for_trips t mt (groups s1) = Some g"
  shows "groups (fst (provision_group s1 u trip' t mt mu now)) = groups s1"
    and "groupMembers (fst (provision_group s1 u trip' t mt mu now)) =
           (if is_member (group_id g) u (groupMembers s1) then groupMembers s1
            else groupMembers s1 @
                 [\<lparr>member_id = groupMembers_seq s1 + 1, groupId = group_id g, member_userId = u,
                   role = ''member'', joinedAt = now\<rparr>])"
    and "snd (provision_group s1 u trip' t mt mu now) =
           AcceptResponse 200 (GroupBody g (members_of (group_id g)
             (groupMembers (fst (provision_group s1 u trip' t mt mu now)))))"
proof -
  from assms have some: "find (\<lambda>g. group_tripId g = Some t \<or> group_tripId g = Some mt) (groups s1) = Some g"
    by (simp add: group_for_trips_def)
  show "groups (fst (provision_group s1 u trip' t mt mu now)) = groups s1"
    by (simp add: provision_group_def some Let_def split: option.splits)
  show "groupMembers (fst (provision_group s1 u trip' t mt mu now)) =
           (if is_member (group_id g) u (groupMembers s1) then groupMembers s1
            else groupMembers s1 @
                 [\<lparr>member_id = groupMembers_seq s1 + 1, groupId = group_id g, member_userId = u,
                   role = ''member'', joinedAt = now\<rparr>])"
    by (simp add: provision_group_def some Let_def is_member_find split: option.splits)
  show "snd (provision_group s1 u trip' t mt mu now) =
           AcceptResponse 200 (GroupBody g (members_of (group_id g)
             (groupMembers (fst (provision_group s1 u trip' t mt mu now)))))"
    by (simp add: provision_group_def some Let_def split: option.splits)
qed

lemma is_member_append:
  "is_member gid uid (xs @ ys) = (is_member gid uid xs \<or> is_member gid uid ys)"
  by (simp add: is_member_def)

lemma members_of_append: "members_of gid (xs @ ys) = members_of gid xs @ members_of gid ys"
  by (simp add: members_of_def)

lemma members_of_fresh:
  "list_all (\<lambda>x. groupId x \<noteq> gid) rows \<Longrightarrow> members_of gid rows = []"
  by (simp add: members_of_def list_all_iff filter_empty_conv)

lemma find_set_accepted:
  "find (\<lambda>(i, m). i = mid) (set_accepted a b rows) =
     map_option (\<lambda>(i, m). (i, accept_row a b m)) (find (\<lambda>(i, m). i = mid) rows)"
  by (induction rows) (auto simp add: set_accepted_def)

lemma find_accepted_store:
  assumes "find (\<lambda>(i, m). i = mid) (tripMatches s) = Some (i, mr)"
  shows "\<exists>mr'. find (\<lambda>(i, m). i = mid) (tripMatches (accepted_store s a b)) = Some (i, mr')
               \<and> tripId mr' = tripId mr \<and> matchedTripId mr' = matchedTripId mr"
  using assms by (simp add: accepted_store_fields find_set_accepted accept_row_same)

lemma find_append_first:
  "find P xs = None \<Longrightarrow> find P (xs @ [g]) = (if P g then Some g else None)"
  by (induction xs) (auto split: if_splits)

lemma group_for_trips_append_new:
  assumes "group_for_trips t mt rows = None" and "group_tripId g = Some t"
  shows "group_for_trips t mt (rows @ [g]) = Some g"
  using assms by (simp add: group_for_trips_def find_append_first)


lemma provision_group_trips:
  "trips (fst (provision_group s1 u trip' t mt mu now)) = trips s1"
  by (simp add: provision_group_def Let_def split: option.splits)

lemma accept_again:
  assumes "find (\<lambda>x. trip_id x = t \<and> userId x = u) (trips s) = Some trip'"
    and "find (\<lambda>(i, m). i = mid) (tripMatches s) = Some (i, mr)"
    and "tripId mr = t"
    and "find (\<lambda>x. trip_id x = matchedTripId mr) (trips s) = Some mt"
    and "group_for_trips t (matchedTripId mr) (groups s) = Some g"
    and "is_member (group_id g) u (groupMembers s)"
  shows "groups (fst (accept_match s u t mid now)) = groups s"
    and "groupMembers (fst (accept_match s u t mid now)) = groupMembers s"
proof -
  let ?s1 = "accepted_store s t (matchedTripId mr)"
  have g: "group_for_trips t (matchedTripId mr) (groups ?s1) = Some g"
    using assms(5) by (simp add: accepted_store_fields)
  have m: "is_member (group_id g) u (groupMembers ?s1)"
    using assms(6) by (simp add: accepted_store_fields)
  show "groups (fst (accept_match s u t mid now)) = groups s"
    by (simp add: accept_match_provision [OF assms(1-4)] provision_group_existing(1) [OF g]
          accepted_store_fields)
  show "groupMembers (fst (accept_match s u t mid now)) = groupMembers s"
    using m
    by (simp add: accept_match_provision [OF assms(1-4)] provision_group_existing(2) [OF g]
          accepted_store_fields)
qed

text \<open>
  Claim C5, as the code has it. The acceptance has found the caller's trip, the match and
  the matched trip. When no group has either trip as its originating trip, one group is
  added, for the caller's trip, with two membership rows: the caller as admin and the owner
  of the matched trip as member (and these two are all its members when no membership row
  already carries the new group id). When such a group exists, no group is added and the
  caller, not the owner of the matched trip, is added to it as member unless already a
  member. Repeating the acceptance adds no group and no membership row.
\<close>

theorem accept_group_provisioning:
  assumes "find (\<lambda>x. trip_id x = t \<and> userId x = u) (trips s) = Some trip'"
    and "find (\<lambda>(i, m). i = mid) (tripMatches s) = Some (i, mr)"
    and "tripId mr = t"
    and "find (\<lambda>x. trip_id x = matchedTripId mr) (trips s) = Some mt"
  shows
    "(group_for_trips t (matchedTripId mr) (groups s) = None \<longrightarrow>
       (\<exists>g a m.
          groups (fst (accept_match s u t mid now)) = groups s @ [g]
        \<and> groupMembers (fst (accept_match s u t mid now)) = groupMembers s @ [a, m]
        \<and> group_id g = groups_seq s + 1 \<and> group_tripId g = Some t \<and> createdBy g = u
        \<and> groupId a = group_id g \<and> member_userId a = u \<and> role a = ''admin''
        \<and> groupId m = group_id g \<and> member_userId m = userId mt \<and> role m = ''member''
        \<and> snd (accept_match s u t mid now) =
            AcceptResponse 201 (GroupBody g
              (members_of (group_id g) (groupMembers (fst (accept_match s u t mid now)))))
        \<and> (list_all (\<lambda>x. groupId x \<noteq> groups_seq s + 1) (groupMembers s) \<longrightarrow>
             members_of (group_id g) (groupMembers (fst (accept_match s u t mid now))) = [a, m])))
     \<and> (\<forall>g. group_for_trips t (matchedTripId mr) (groups s) = Some g \<longrightarrow>
          groups (fst (accept_match s u t mid now)) = groups s
        \<and> groupMembers (fst (accept_match s u t mid now)) =
            (if is_member (group_id g) u (groupMembers s) then groupMembers s
             else groupMembers s @
                  [\<lparr>member_id = groupMembers_seq s + 1, groupId = group_id g, member_userId = u,
                    role = ''member'', joinedAt = now\<rparr>])
        \<and> snd (accept_match s u t mid now) =
            AcceptResponse 200 (GroupBody g
              (members_of (group_id g) (groupMembers (fst (accept_match s u t mid now))))))
     \<and> groups (fst (accept_match (fst (accept_match s u t mid now)) u t mid now'))
         = groups (fst (accept_match s u t mid now))
     \<and> groupMembers (fst (accept_match (fst (accept_match s u t mid now)) u t mid now'))
         = groupMembers (fst (accept_match s u t mid now))"
proof -
  let ?b = "matchedTripId mr"
  let ?s1 = "accepted_store s t ?b"
  let ?s' = "fst (accept_match s u t mid now)"
  note eq = accept_match_provision [OF assms, of now]
  have trips': "trips ?s' = trips s"
    by (simp add: eq provision_group_trips accepted_store_fields)
  have matches': "tripMatches ?s' = tripMatches ?s1"
    by (simp add: eq provision_group_tripMatches)
  from find_accepted_store [OF assms(2), of t ?b] obtain mr' where
    mr': "find (\<lambda>(i, m). i = mid) (tripMatches ?s') = Some (i, mr')"
         "tripId mr' = t" "matchedTripId mr' = ?b"
    using assms(3) matches' by auto
  have f1: "find (\<lambda>x. trip_id x = t \<and> userId x = u) (trips ?s') = Some trip'"
    and f4: "find (\<lambda>x. trip_id x = matchedTripId mr') (trips ?s') = Some mt"
    using assms(1,4) trips' mr'(3) by simp_all
  note again = accept_again [OF f1 mr'(1) mr'(2) f4]
  have new: "\<exists>g a m.
          groups ?s' = groups s @ [g]
        \<and> groupMembers ?s' = groupMembers s @ [a, m]
        \<and> group_id g = groups_seq s + 1 \<and> group_tripId g = Some t \<and> createdBy g = u
        \<and> groupId a = group_id g \<and> member_userId a = u \<and> role a = ''admin''
        \<and> groupId m = group_id g \<and> member_userId m = userId mt \<and> role m = ''member''
        \<and> snd (accept_match s u t mid now) =
            AcceptResponse 201 (GroupBody g (members_of (group_id g) (groupMembers ?s')))
        \<and> (list_all (\<lambda>x. groupId x \<noteq> groups_seq s + 1) (groupMembers s) \<longrightarrow>
             members_of (group_id g) (groupMembers ?s') = [a, m])"
    if none: "group_for_trips t ?b (groups s) = None"
  proof -
    from none have "group_for_trips t ?b (groups ?s1) = None"
      by (simp add: accepted_store_fields)
    from provision_group_new [OF this, of u trip' "userId mt" now] obtain g a m where
      st: "fst (provision_group ?s1 u trip' t ?b (userId mt) now) =
             ?s1\<lparr>groups := groups ?s1 @ [g], groups_seq := groups_seq ?s1 + 1,
                  groupMembers := groupMembers ?s1 @ [a, m],
                  groupMembers_seq := groupMembers_seq ?s1 + 1 + 1\<rparr>"
      and rs: "snd (provision_group ?s1 u trip' t ?b (userId mt) now) =
               AcceptResponse 201 (GroupBody g (members_of (group_id g) (groupMembers ?s1 @ [a, m])))"
      and gf: "group_id g = groups_seq ?s1 + 1" "group_tripId g = Some t" "createdBy g = u"
      and af: "groupId a = group_id g" "member_userId a = u" "role a = ''admin''"
      and mf: "groupId m = group_id g" "member_userId m = userId mt" "role m = ''member''"
      by blast
    have gs: "groups ?s' = groups s @ [g]" and ms: "groupMembers ?s' = groupMembers s @ [a, m]"
      by (simp_all add: eq st accepted_store_fields)
    have r: "snd (accept_match s u t mid now) =
            AcceptResponse 201 (GroupBody g (members_of (group_id g) (groupMembers ?s')))"
      by (simp add: eq rs ms [unfolded eq] accepted_store_fields)
    have two: "members_of (group_id g) (groupMembers ?s') = [a, m]"
      if "list_all (\<lambda>x. groupId x \<noteq> groups_seq s + 1) (groupMembers s)"
      using that gf(1) af(1) mf(1)
      by (simp add: ms members_of_append members_of_fresh accepted_store_fields)
         (simp add: members_of_def)
    from gs ms gf af mf r two show ?thesis
      by (intro exI [of _ g] exI [of _ a] exI [of _ m]) (simp add: accepted_store_fields)
  qed
  have existing: "groups ?s' = groups s
        \<and> groupMembers ?s' =
            (if is_member (group_id g) u (groupMembers s) then groupMembers s
             else groupMembers s @
                  [\<lparr>member_id = groupMembers_seq s + 1, groupId = group_id g, member_userId = u,
                    role = ''member'', joinedAt = now\<rparr>])
        \<and> snd (accept_match s u t mid now) =
            AcceptResponse 200 (GroupBody g (members_of (group_id g) (groupMembers ?s')))"
    if some: "group_for_trips t ?b (groups s) = Some g" for g
  proof -
    from some have g1: "group_for_trips t ?b (groups ?s1) = Some g"
      by (simp add: accepted_store_fields)
    from provision_group_existing [OF g1, of u trip' "userId mt" now] show ?thesis
      by (simp add: eq accepted_store_fields)
  qed
  have idem: "groups (fst (accept_match ?s' u t mid now')) = groups ?s'
     \<and> groupMembers (fst (accept_match ?s' u t mid now')) = groupMembers ?s'"
  proof (cases "group_for_trips t ?b (groups s)")
    case None
    from new [OF None] obtain g a m where
      gs: "groups ?s' = groups s @ [g]" and ms: "groupMembers ?s' = groupMembers s @ [a, m]"
      and gf: "group_tripId g = Some t" and af: "groupId a = group_id g" "member_userId a = u"
      by blast
    have "group_for_trips t (matchedTripId mr') (groups ?s') = Some g"
      unfolding gs mr'(3) using None gf by (rule group_for_trips_append_new)
    moreover have "is_member (group_id g) u (groupMembers ?s')"
      unfolding ms using af by (simp add: is_member_append is_member_def)
    ultimately show ?thesis using again by blast
  next
    case (Some g)
    from existing [OF Some] have
      gs: "groups ?s' = groups s" and
      ms: "groupMembers ?s' =
            (if is_member (group_id g) u (groupMembers s) then groupMembers s
             else groupMembers s @
                  [\<lparr>member_id = groupMembers_seq s + 1, groupId = group_id g, member_userId = u,
                    role = ''member'', joinedAt = now\<rparr>])"
      by simp_all
    have "group_for_trips t (matchedTripId mr') (groups ?s') = Some g"
      unfolding gs mr'(3) by (rule Some)
    moreover have "is_member (group_id g) u (groupMembers ?s')"
      unfolding ms by (simp add: is_member_append is_member_def)
    ultimately show ?thesis using again by blast
  qed
  from new existing idem show ?thesis by blast
qed


lemma ex_store3_finds:
  "find (\<lambda>x. trip_id x = 3 \<and> userId x = ''alice'') (trips ex_store3) = Some ex_created"
  "find (\<lambda>(i, m). i = 4) (tripMatches ex_store3) =
     Some (4, \<lparr>tripId = 3, matchedTripId = 4, matchScore = 80, status = ''pending'', createdAt = ''t4''\<rparr>)"
  "find (\<lambda>x. trip_id x = 4) (trips ex_store3) = Some ex_candidate_80"
  "find (\<lambda>x. trip_id x = 4 \<and> userId x = ''dave'') (trips ex_store3) = Some ex_candidate_80"
  "find (\<lambda>(i, m). i = 3) (tripMatches ex_store3) =
     Some (3, \<lparr>tripId = 4, matchedTripId = 3, matchScore = 80, status = ''pending'', createdAt = ''t4''\<rparr>)"
  "find (\<lambda>x. trip_id x = 3) (trips ex_store3) = Some ex_created"
  by (simp_all add: ex_store3_def ex_candidate_def ex_candidate_50_def ex_created_def
        ex_candidate_80_def)

lemma ex_store3_group:
  "group_for_trips 3 4 (groups ex_store3) = Some ex_group"
  "group_for_trips 4 3 (groups ex_store3) = Some ex_group"
  "is_member 1 ''alice'' (groupMembers ex_store3)"
  "\<not> is_member 1 ''dave'' (groupMembers ex_store3)"
  "group_id ex_group = 1"
  by (simp_all add: group_for_trips_def ex_store3_def ex_group_def is_member_def)

lemma ex_store2_group:
  "find (\<lambda>x. trip_id x = 1) (trips ex_store2) = Some ex_candidate"
  "group_for_trips 3 1 (groups ex_store2) = None"
  "list_all (\<lambda>x. groupId x \<noteq> groups_seq ex_store2 + 1) (groupMembers ex_store2)"
  "groupMembers ex_store2 = []" "groups ex_store2 = []"
  by (simp_all add: group_for_trips_def ex_store2_def ex_candidate_def)

text \<open>
  Claim C5 as stated fails: \<open>alice\<close>, whose trip 3 already has a group, accepts the
  match of her trip with trip 4 of \<open>dave\<close>. No group is added, and \<open>dave\<close>, the new
  participant, is not a member of the existing group afterwards.
\<close>

theorem accept_existing_group_counterexample:
  "find (\<lambda>(i, m). i = 4) (tripMatches ex_store3) =
     Some (4, \<lparr>tripId = 3, matchedTripId = 4, matchScore = 80, status = ''pending'', createdAt = ''t4''\<rparr>)
   \<and> find (\<lambda>x. trip_id x = 4) (trips ex_store3) = Some ex_candidate_80
   \<and> userId ex_candidate_80 = ''dave''
   \<and> group_for_trips 3 4 (groups ex_store3) = Some ex_group
   \<and> \<not> is_member (group_id ex_group) ''dave'' (groupMembers ex_store3)
   \<and> snd (accept_match ex_store3 ''alice'' 3 4 ''t5'') =
       AcceptResponse 200 (GroupBody ex_group (groupMembers ex_store3))
   \<and> groups (fst (accept_match ex_store3 ''alice'' 3 4 ''t5'')) = groups ex_store3
   \<and> groupMembers (fst (accept_match ex_store3 ''alice'' 3 4 ''t5'')) = groupMembers ex_store3
   \<and> \<not> is_member (group_id ex_group) ''dave''
         (groupMembers (fst (accept_match ex_store3 ''alice'' 3 4 ''t5'')))"
proof -
  have t: "tripId \<lparr>tripId = 3, matchedTripId = 4, matchScore = 80, status = ''pending'',
                   createdAt = ''t4''\<rparr> = 3"
    and m: "matchedTripId \<lparr>tripId = 3, matchedTripId = 4, matchScore = 80, status = ''pending'',
                          createdAt = ''t4''\<rparr> = 4"
    by simp_all
  have eq: "accept_match ex_store3 ''alice'' 3 4 ''t5'' =
          provision_group (accepted_store ex_store3 3 4) ''alice'' ex_created 3 4 ''dave'' ''t5''"
    using accept_match_provision [OF ex_store3_finds(1) ex_store3_finds(2) t,
            of ex_candidate_80 "''t5''"] ex_store3_finds(3)
    by (simp add: ex_candidate_80_def)
  have g: "group_for_trips 3 4 (groups (accepted_store ex_store3 3 4)) = Some ex_group"
    by (simp add: accepted_store_fields ex_store3_group)
  note ex = provision_group_existing [OF g, of "''alice''" ex_created "''dave''" "''t5''"]
  have gm: "groupMembers (fst (accept_match ex_store3 ''alice'' 3 4 ''t5'')) = groupMembers ex_store3"
    using ex(2) by (simp add: eq accepted_store_fields ex_store3_group)
  have gs: "groups (fst (accept_match ex_store3 ''alice'' 3 4 ''t5'')) = groups ex_store3"
    using ex(1) by (simp add: eq accepted_store_fields)
  have mo: "members_of 1 (groupMembers ex_store3) = groupMembers ex_store3"
    by (simp add: members_of_def ex_store3_def)
  have rs: "snd (accept_match ex_store3 ''alice'' 3 4 ''t5'') =
       AcceptResponse 200 (GroupBody ex_group (groupMembers ex_store3))"
    using ex(3) gm by (simp add: eq ex_store3_group mo)
  from gm gs rs ex_store3_finds ex_store3_group show ?thesis
    by (simp add: ex_candidate_80_def)
qed

theorem accept_group_provisioning_witness:
  "find (\<lambda>x. trip_id x = 3 \<and> userId x = ''alice'') (trips ex_store2) = Some ex_created
   \<and> find (\<lambda>(i, m). i = 1) (tripMatches ex_store2) =
       Some (1, \<lparr>tripId = 3, matchedTripId = 1, matchScore = 210, status = ''pending'', createdAt = ''t2''\<rparr>)
   \<and> find (\<lambda>x. trip_id x = 1) (trips ex_store2) = Some ex_candidate
   \<and> group_for_trips 3 1 (groups ex_store2) = None
   \<and> list_all (\<lambda>x. groupId x \<noteq> groups_seq ex_store2 + 1) (groupMembers ex_store2)
   \<and> (\<exists>g a m. groups (fst (accept_match ex_store2 ''alice'' 3 1 ''t3'')) = [g]
         \<and> members_of (group_id g) (groupMembers (fst (accept_match ex_store2 ''alice'' 3 1 ''t3'')))
             = [a, m]
         \<and> group_tripId g = Some 3
         \<and> member_userId a = ''alice'' \<and> role a = ''admin''
         \<and> member_userId m = ''bob'' \<and> role m = ''member'')
   \<and> find (\<lambda>x. trip_id x = 4 \<and> userId x = ''dave'') (trips ex_store3) = Some ex_candidate_80
   \<and> find (\<lambda>(i, m). i = 3) (tripMatches ex_store3) =
       Some (3, \<lparr>tripId = 4, matchedTripId = 3, matchScore = 80, status = ''pending'', createdAt = ''t4''\<rparr>)
   \<and> find (\<lambda>x. trip_id x = 3) (trips ex_store3) = Some ex_created
   \<and> group_for_trips 4 3 (groups ex_store3) = Some ex_group
   \<and> groups (fst (accept_match ex_store3 ''dave'' 4 3 ''t5'')) = groups ex_store3
   \<and> groupMembers (fst (accept_match ex_store3 ''dave'' 4 3 ''t5'')) =
       groupMembers ex_store3 @
         [\<lparr>member_id = 3, groupId = 1, member_userId = ''dave'', role = ''member'', joinedAt = ''t5''\<rparr>]"
proof -
  let ?r1 = "\<lparr>tripId = 3, matchedTripId = 1, matchScore = 210, status = ''pending'', createdAt = ''t2''\<rparr>"
  let ?r3 = "\<lparr>tripId = 4, matchedTripId = 3, matchScore = 80, status = ''pending'', createdAt = ''t4''\<rparr>"
  have t1: "tripId ?r1 = 3" and m1: "matchedTripId ?r1 = 1" by simp_all
  have t3: "tripId ?r3 = 4" and m3: "matchedTripId ?r3 = 3" by simp_all
  have f1: "find (\<lambda>x. trip_id x = matchedTripId ?r1) (trips ex_store2) = Some ex_candidate"
    using ex_store2_group(1) by simp
  have f3: "find (\<lambda>x. trip_id x = matchedTripId ?r3) (trips ex_store3) = Some ex_created"
    using ex_store3_finds(6) by simp
  note new = accept_group_provisioning [OF ex_store2_finds(1) ex_store2_finds(2) t1 f1,
               of "''t3''" "''t3''"]
  note old = accept_group_provisioning [OF ex_store3_finds(4) ex_store3_finds(5) t3 f3,
               of "''t5''" "''t5''"]
  have bob: "userId ex_candidate = ''bob''" by (simp add: ex_candidate_def)
  from new ex_store2_group bob have
    "\<exists>g a m. groups (fst (accept_match ex_store2 ''alice'' 3 1 ''t3'')) = [g]
         \<and> members_of (group_id g) (groupMembers (fst (accept_match ex_store2 ''alice'' 3 1 ''t3'')))
             = [a, m]
         \<and> group_tripId g = Some 3
         \<and> member_userId a = ''alice'' \<and> role a = ''admin''
         \<and> member_userId m = ''bob'' \<and> role m = ''member''"
    by (simp add: m1) blast
  moreover from old ex_store3_group have
    "groups (fst (accept_match ex_store3 ''dave'' 4 3 ''t5'')) = groups ex_store3
     \<and> groupMembers (fst (accept_match ex_store3 ''dave'' 4 3 ''t5'')) =
       groupMembers ex_store3 @
         [\<lparr>member_id = 3, groupId = 1, member_userId = ''dave'', role = ''member'', joinedAt = ''t5''\<rparr>]"
    by (simp add: m3) (simp add: ex_store3_def)
  ultimately show ?thesis
    using ex_store2_finds ex_store2_group ex_store3_finds ex_store3_group by simp
qed

end
